theory Spec2Isabelle
  imports Main "HOL-Library.Word" "HOL-Library.Sublist"
begin

unbundle bit_operations_syntax

text \<open>
  A shallow embedding of the Python reference server of Plinko PIR: \<open>utils.py\<close>,
  \<open>database.py\<close>, \<open>prset.py\<close>, \<open>plinko_core.py\<close> and \<open>handlers.py\<close>, function by
  function, followed by the properties that the specification states of them.
\<close>

section \<open>Python values, exceptions and string formatting\<close>

text \<open>
  The reference server is Python. Its integers are unbounded (\<open>int\<close>), a \<open>bytes\<close> object is a
  list of 8-bit words, and a value whose type the code inspects with \<open>isinstance\<close> is a
  \<open>pyval\<close>. \<open>PFloat\<close> stands for any float: no modelled path reads the number itself.
  A \<open>PDict\<close> lists the items of a dict (keys distinct, as in a Python dict).
\<close>

type_synonym byte = "8 word"

datatype pyval =
    PNone
  | PBool bool
  | PInt int
  | PFloat
  | PStr string
  | PBytes "byte list"
  | PList "pyval list"
  | PDict "(string \<times> pyval) list"

text \<open>
  Every \<open>raise\<close> is a value: the exception class with its message. \<open>StructError\<close> is
  \<open>struct.error\<close>, \<open>HTTPException\<close> what Flask's \<open>get_json\<close> raises on a body it cannot parse.
\<close>

datatype error =
    ValueError string
  | IndexError string
  | TypeError string
  | KeyError string
  | StructError string
  | DatabaseError string
  | HTTPException string

fun error_message :: "error \<Rightarrow> string" where
  "error_message (ValueError m) = m"
| "error_message (IndexError m) = m"
| "error_message (TypeError m) = m"
| "error_message (KeyError m) = m"
| "error_message (StructError m) = m"
| "error_message (DatabaseError m) = m"
| "error_message (HTTPException m) = m"

definition digit_char :: "nat \<Rightarrow> char" where
  "digit_char d = ''0123456789'' ! d"

fun str_nat :: "nat \<Rightarrow> string" where
  "str_nat n = (if n < 10 then [digit_char n] else str_nat (n div 10) @ [digit_char (n mod 10)])"

declare str_nat.simps [simp del]

definition str_int :: "int \<Rightarrow> string" where
  "str_int i = (if i < 0 then CHR ''-'' # str_nat (nat (- i)) else str_nat (nat i))"

text \<open>\<open>isinstance(v, int)\<close>: a \<open>bool\<close> is an \<open>int\<close> in Python, with \<open>True == 1\<close>.\<close>

fun py_int :: "pyval \<Rightarrow> int option" where
  "py_int (PInt i) = Some i"
| "py_int (PBool b) = Some (if b then 1 else 0)"
| "py_int v = None"

text \<open>What an f-string prints for an integer-like value.\<close>

fun py_format :: "pyval \<Rightarrow> string" where
  "py_format (PInt i) = str_int i"
| "py_format (PBool b) = (if b then ''True'' else ''False'')"
| "py_format v = []"

fun py_type_name :: "pyval \<Rightarrow> string" where
  "py_type_name PNone = ''NoneType''"
| "py_type_name (PBool b) = ''bool''"
| "py_type_name (PInt i) = ''int''"
| "py_type_name PFloat = ''float''"
| "py_type_name (PStr s) = ''str''"
| "py_type_name (PBytes bs) = ''bytes''"
| "py_type_name (PList xs) = ''list''"
| "py_type_name (PDict kvs) = ''dict''"

definition py_type_repr :: "pyval \<Rightarrow> string" where
  "py_type_repr v = ''<class '' @ [CHR 0x27] @ py_type_name v @ [CHR 0x27] @ ''>''"

section \<open>struct: big-endian unsigned 64-bit\<close>

definition be_decode :: "byte list \<Rightarrow> int" where
  "be_decode bs = foldl (\<lambda>acc b. acc * 256 + uint b) 0 bs"

definition be_encode8 :: "int \<Rightarrow> byte list" where
  "be_encode8 v = map (\<lambda>i. word_of_int (v div 256 ^ (7 - i))) [0..<8]"

text \<open>\<open>struct.unpack('>Q', data)[0]\<close>: needs exactly 8 bytes.\<close>

definition unpack_Q :: "byte list \<Rightarrow> error + int" where
  "unpack_Q bs =
     (if length bs \<noteq> 8 then Inl (StructError ''unpack requires a buffer of 8 bytes'')
      else Inr (be_decode bs))"

text \<open>\<open>struct.pack_into('>Q', buf, offset, v)\<close>: the 8 bytes must fit the buffer, and \<open>v\<close>
  must fit 64 unsigned bits; otherwise \<open>struct.error\<close> with CPython's message.\<close>

definition pack_into_Q :: "byte list \<Rightarrow> nat \<Rightarrow> int \<Rightarrow> error + byte list" where
  "pack_into_Q buf offset v =
     (if length buf < offset + 8
        then Inl (StructError (''pack_into requires a buffer of at least ''
               @ str_int (int (offset + 8)) @ '' bytes for packing 8 bytes at offset ''
               @ str_int (int offset) @ '' (actual buffer size is ''
               @ str_int (int (length buf)) @ '')''))
      else if v < 0 \<or> 2 ^ 64 \<le> v then Inl (StructError ''int too large to convert'')
      else Inr (take offset buf @ be_encode8 v @ drop (offset + 8) buf))"

section \<open>utils.py\<close>

text \<open>\<open>validate_index\<close> returns nothing or raises; the three checks in the source's order.\<close>

definition validate_index :: "pyval \<Rightarrow> int \<Rightarrow> error + unit" where
  "validate_index index max_index =
     (case py_int index of
        None \<Rightarrow> Inl (ValueError (''Index must be integer, got '' @ py_type_repr index))
      | Some i \<Rightarrow>
          if i < 0 then Inl (ValueError (''Index cannot be negative: '' @ py_format index))
          else if max_index \<le> i
            then Inl (ValueError (''Index '' @ py_format index @ '' out of bounds [0, ''
                                   @ str_int max_index @ '')''))
          else Inr ())"

text \<open>\<open>validate_prf_key\<close>: on success the model hands back the bytes it has seen, so that the
  caller goes on with a \<open>byte list\<close>.\<close>

definition validate_prf_key :: "pyval \<Rightarrow> error + byte list" where
  "validate_prf_key key_data =
     (case key_data of
        PBytes bs \<Rightarrow>
          if length bs \<noteq> 16
            then Inl (ValueError (''PRF key must be 16 bytes, got '' @ str_int (int (length bs))))
          else Inr bs
      | _ \<Rightarrow> Inl (ValueError (''PRF key must be bytes, got '' @ py_type_repr key_data)))"

fun compute_xor_loop :: "int \<Rightarrow> int list \<Rightarrow> int" where
  "compute_xor_loop result [] = result"
| "compute_xor_loop result (v # values) = compute_xor_loop (result XOR v) values"

definition compute_xor :: "int list \<Rightarrow> int" where
  "compute_xor values = compute_xor_loop 0 values"

section \<open>database.py\<close>

text \<open>The fields of \<open>PlinkoDatabase\<close>; the field \<open>size\<close> is \<open>size_db\<close> here, since
  \<open>size\<close> is a constant of HOL.\<close>

record database =
  db_path :: string
  data :: "int list"
  size_db :: int
  entry_size :: int

definition database_init :: "string \<Rightarrow> database" where
  "database_init path = \<lparr>db_path = path, data = [], size_db = 0, entry_size = 8\<rparr>"

text \<open>The parsing loop of \<open>load\<close> after \<open>i\<close> rounds: entry \<open>i\<close> is unpacked from the slice
  \<open>binary_data[i * entry_size : i * entry_size + entry_size]\<close> and appended.\<close>

fun load_entries :: "byte list \<Rightarrow> nat \<Rightarrow> nat \<Rightarrow> error + int list" where
  "load_entries binary_data es 0 = Inr []"
| "load_entries binary_data es (Suc i) =
     (case load_entries binary_data es i of
        Inl e \<Rightarrow> Inl e
      | Inr entries \<Rightarrow>
          (case unpack_Q (take es (drop (i * es) binary_data)) of
             Inl e \<Rightarrow> Inl e
           | Inr entry \<Rightarrow> Inr (entries @ [entry])))"

text \<open>
  \<open>load\<close> on the state of the file system: \<open>None\<close> when no file is at \<open>db_path\<close> once
  \<open>_wait_for_database\<close> is over (checked once for \<open>timeout \<le> 0\<close>, polled otherwise),
  \<open>Some binary_data\<close> with the file's bytes otherwise. Any exception raised while parsing,
  the size check's own \<open>DatabaseError\<close> included, is wrapped by the final
  \<open>except Exception\<close> clause.
\<close>

definition load :: "database \<Rightarrow> int \<Rightarrow> byte list option \<Rightarrow> error + database" where
  "load db timeout file =
     (case file of
        None \<Rightarrow>
          if timeout \<le> 0
            then Inl (DatabaseError (''Database file '' @ db_path db @ '' not found''))
          else Inl (DatabaseError (''Timeout waiting for database file at '' @ db_path db))
      | Some binary_data \<Rightarrow>
          if int (length binary_data) mod entry_size db \<noteq> 0
            then Inl (DatabaseError (''Failed to load database: Database file size ''
                       @ str_int (int (length binary_data)) @ '' is not a multiple of entry size ''
                       @ str_int (entry_size db)))
          else
            (let n = int (length binary_data) div entry_size db
             in case load_entries binary_data (nat (entry_size db)) (nat n) of
                  Inl e \<Rightarrow> Inl (DatabaseError (''Failed to load database: '' @ error_message e))
                | Inr entries \<Rightarrow> Inr (db\<lparr>data := entries, size_db := n\<rparr>)))"

text \<open>\<open>get_entry\<close>: the explicit bounds check, then the list read (which raises by itself only
  if \<open>size\<close> and the list disagree).\<close>

definition get_entry :: "database \<Rightarrow> int \<Rightarrow> error + int" where
  "get_entry db index =
     (if index < 0 \<or> size_db db \<le> index
        then Inl (IndexError (''Database index '' @ str_int index @ '' out of bounds [0, ''
                               @ str_int (size_db db) @ '')''))
      else if nat index < length (data db) then Inr (data db ! nat index)
      else Inl (IndexError ''list index out of range''))"

definition get_size :: "database \<Rightarrow> int" where
  "get_size db = size_db db"

section \<open>AES-128 on one block\<close>

text \<open>
  \<open>PRSet\<close> encrypts single 16-byte blocks with the \<open>cryptography\<close> package's AES in ECB
  mode. The package is not part of the repository; the cipher is written out here after
  FIPS-197 (SubBytes, ShiftRows, MixColumns, AddRoundKey, ten rounds, the key schedule run
  alongside), on a state of 16 bytes in input order.
\<close>

definition sbox :: "byte list" where
  "sbox = [
    99, 124, 119, 123, 242, 107, 111, 197, 48, 1, 103, 43, 254, 215, 171, 118,
    202, 130, 201, 125, 250, 89, 71, 240, 173, 212, 162, 175, 156, 164, 114, 192,
    183, 253, 147, 38, 54, 63, 247, 204, 52, 165, 229, 241, 113, 216, 49, 21,
    4, 199, 35, 195, 24, 150, 5, 154, 7, 18, 128, 226, 235, 39, 178, 117,
    9, 131, 44, 26, 27, 110, 90, 160, 82, 59, 214, 179, 41, 227, 47, 132,
    83, 209, 0, 237, 32, 252, 177, 91, 106, 203, 190, 57, 74, 76, 88, 207,
    208, 239, 170, 251, 67, 77, 51, 133, 69, 249, 2, 127, 80, 60, 159, 168,
    81, 163, 64, 143, 146, 157, 56, 245, 188, 182, 218, 33, 16, 255, 243, 210,
    205, 12, 19, 236, 95, 151, 68, 23, 196, 167, 126, 61, 100, 93, 25, 115,
    96, 129, 79, 220, 34, 42, 144, 136, 70, 238, 184, 20, 222, 94, 11, 219,
    224, 50, 58, 10, 73, 6, 36, 92, 194, 211, 172, 98, 145, 149, 228, 121,
    231, 200, 55, 109, 141, 213, 78, 169, 108, 86, 244, 234, 101, 122, 174, 8,
    186, 120, 37, 46, 28, 166, 180, 198, 232, 221, 116, 31, 75, 189, 139, 138,
    112, 62, 181, 102, 72, 3, 246, 14, 97, 53, 87, 185, 134, 193, 29, 158,
    225, 248, 152, 17, 105, 217, 142, 148, 155, 30, 135, 233, 206, 85, 40, 223,
    140, 161, 137, 13, 191, 230, 66, 104, 65, 153, 45, 15, 176, 84, 187, 22]"

definition sub_byte :: "byte \<Rightarrow> byte" where
  "sub_byte b = sbox ! unat b"

definition xtime :: "byte \<Rightarrow> byte" where
  "xtime b = (if b AND 128 = 0 then push_bit 1 b else push_bit 1 b XOR 27)"

definition xor_bytes :: "byte list \<Rightarrow> byte list \<Rightarrow> byte list" where
  "xor_bytes xs ys = map (\<lambda>(x, y). x XOR y) (zip xs ys)"

definition sub_bytes :: "byte list \<Rightarrow> byte list" where
  "sub_bytes s = map sub_byte s"

definition shift_rows :: "byte list \<Rightarrow> byte list" where
  "shift_rows s = map (\<lambda>i. s ! ((i + 4 * (i mod 4)) mod 16)) [0..<16]"

definition mix_column :: "byte list \<Rightarrow> byte list" where
  "mix_column col =
     (let a0 = col ! 0; a1 = col ! 1; a2 = col ! 2; a3 = col ! 3
      in [xtime a0 XOR (xtime a1 XOR a1) XOR a2 XOR a3,
          a0 XOR xtime a1 XOR (xtime a2 XOR a2) XOR a3,
          a0 XOR a1 XOR xtime a2 XOR (xtime a3 XOR a3),
          (xtime a0 XOR a0) XOR a1 XOR a2 XOR xtime a3])"

definition mix_columns :: "byte list \<Rightarrow> byte list" where
  "mix_columns s = concat (map (\<lambda>c. mix_column (take 4 (drop (4 * c) s))) [0..<4])"

definition next_round_key :: "byte \<Rightarrow> byte list \<Rightarrow> byte list" where
  "next_round_key rcon rk =
     (let w0 = take 4 rk; w1 = take 4 (drop 4 rk); w2 = take 4 (drop 8 rk); w3 = drop 12 rk;
          t = xor_bytes (map sub_byte (drop 1 w3 @ take 1 w3)) [rcon, 0, 0, 0];
          v0 = xor_bytes w0 t; v1 = xor_bytes w1 v0; v2 = xor_bytes w2 v1; v3 = xor_bytes w3 v2
      in v0 @ v1 @ v2 @ v3)"

fun aes_rounds :: "nat \<Rightarrow> byte \<Rightarrow> byte list \<Rightarrow> byte list \<Rightarrow> byte list" where
  "aes_rounds 0 rcon rk s = s"
| "aes_rounds (Suc 0) rcon rk s =
     xor_bytes (shift_rows (sub_bytes s)) (next_round_key rcon rk)"
| "aes_rounds (Suc n) rcon rk s =
     (let rk' = next_round_key rcon rk
      in aes_rounds n (xtime rcon) rk' (xor_bytes (mix_columns (shift_rows (sub_bytes s))) rk'))"

definition aes128_encrypt_block :: "byte list \<Rightarrow> byte list \<Rightarrow> byte list" where
  "aes128_encrypt_block key block = aes_rounds 10 1 key (xor_bytes block key)"

section \<open>prset.py\<close>

text \<open>\<open>PrfKey128(key_bytes)\<close> with the bytes given (the random key of the default argument
  is not modelled): the key is the byte list itself.\<close>

definition PrfKey128 :: "byte list \<Rightarrow> error + byte list" where
  "PrfKey128 key_bytes =
     (if length key_bytes \<noteq> 16
        then Inl (ValueError (''PRF key must be 16 bytes, got '' @ str_int (int (length key_bytes))))
      else Inr key_bytes)"

text \<open>\<open>PRSet.prf_eval_mod\<close>. The encryptor is an ECB context: \<open>update\<close> on one whole block
  returns that block's encryption and keeps nothing. Python's \<open>%\<close> is HOL's \<open>mod\<close> on
  \<open>int\<close> (the sign of the divisor).\<close>

definition prf_eval_mod :: "byte list \<Rightarrow> int \<Rightarrow> int \<Rightarrow> error + int" where
  "prf_eval_mod key x m =
     (if m = 0 then Inr 0
      else
        (case pack_into_Q (replicate 16 0) 8 x of
           Inl e \<Rightarrow> Inl e
         | Inr input_block \<Rightarrow>
             (let output_block = aes128_encrypt_block key input_block
              in case unpack_Q (take 8 output_block) of
                   Inl e \<Rightarrow> Inl e
                 | Inr v \<Rightarrow> Inr (v mod m))))"

text \<open>The loop of \<open>PRSet.expand\<close> after \<open>i\<close> rounds of \<open>for i in range(set_size)\<close>.\<close>

fun expand_loop :: "byte list \<Rightarrow> int \<Rightarrow> nat \<Rightarrow> error + int list" where
  "expand_loop key chunk_size 0 = Inr []"
| "expand_loop key chunk_size (Suc i) =
     (case expand_loop key chunk_size i of
        Inl e \<Rightarrow> Inl e
      | Inr indices \<Rightarrow>
          (case prf_eval_mod key (int i) chunk_size of
             Inl e \<Rightarrow> Inl e
           | Inr offset \<Rightarrow> Inr (indices @ [int i * chunk_size + offset])))"

text \<open>\<open>range(set_size)\<close> is empty for a negative \<open>set_size\<close>, as \<open>nat\<close> makes it.\<close>

definition expand :: "byte list \<Rightarrow> int \<Rightarrow> int \<Rightarrow> error + int list" where
  "expand key set_size chunk_size = expand_loop key chunk_size (nat set_size)"

section \<open>plinko\_core.py\<close>

record server =
  database :: database
  db_size :: int
  chunk_size :: int
  set_size :: int

definition PlinkoPIRServer :: "database \<Rightarrow> server" where
  "PlinkoPIRServer db =
     (let n = get_size db;
          cs = max 1 (n div 1024);
          ss = max 1 (n div cs)
      in \<lparr>database = db, db_size = n, chunk_size = cs, set_size = ss\<rparr>)"

record health =
  status :: string
  database_loaded :: bool
  database_size :: int
  health_chunk_size :: int
  health_set_size :: int

definition health_check :: "server \<Rightarrow> health" where
  "health_check srv =
     \<lparr>status = ''healthy'',
      database_loaded = (0 < db_size srv),
      database_size = db_size srv,
      health_chunk_size = chunk_size srv,
      health_set_size = set_size srv\<rparr>"

text \<open>
  The three queries return a dict with the result under \<open>"value"\<close> or \<open>"parity"\<close> and the
  wall-clock duration under \<open>"server_time_nanos"\<close>. The model returns the result; the
  duration is a reading of the clock and is left out. \<open>except Exception: ...; raise\<close> logs
  and re-raises, so an error passes through unchanged.
\<close>

definition plaintext_query :: "server \<Rightarrow> pyval \<Rightarrow> error + int" where
  "plaintext_query srv index =
     (case validate_index index (db_size srv) of
        Inl e \<Rightarrow> Inl e
      | Inr u \<Rightarrow>
          (case py_int index of
             None \<Rightarrow> Inl (TypeError ''unsupported operand'')
           | Some i \<Rightarrow> get_entry (database srv) i))"

text \<open>\<open>for idx in indices: validate_index(idx, self.db_size)\<close>: the first failure is raised.\<close>

fun validate_indices :: "pyval list \<Rightarrow> int \<Rightarrow> error + unit" where
  "validate_indices [] n = Inr ()"
| "validate_indices (idx # rest) n =
     (case validate_index idx n of Inl e \<Rightarrow> Inl e | Inr u \<Rightarrow> validate_indices rest n)"

text \<open>\<open>[self.database.get_entry(idx) for idx in indices]\<close>.\<close>

fun get_entries :: "database \<Rightarrow> pyval list \<Rightarrow> error + int list" where
  "get_entries db [] = Inr []"
| "get_entries db (idx # rest) =
     (case py_int idx of
        None \<Rightarrow> Inl (TypeError ''unsupported operand'')
      | Some i \<Rightarrow>
          (case get_entry db i of
             Inl e \<Rightarrow> Inl e
           | Inr v \<Rightarrow>
               (case get_entries db rest of Inl e \<Rightarrow> Inl e | Inr vs \<Rightarrow> Inr (v # vs))))"

definition full_set_query :: "server \<Rightarrow> pyval \<Rightarrow> error + int" where
  "full_set_query srv prf_key =
     (case validate_prf_key prf_key of
        Inl e \<Rightarrow> Inl e
      | Inr key_bytes \<Rightarrow>
          (case PrfKey128 key_bytes of
             Inl e \<Rightarrow> Inl e
           | Inr key \<Rightarrow>
               (case expand key (set_size srv) (chunk_size srv) of
                  Inl e \<Rightarrow> Inl e
                | Inr indices \<Rightarrow>
                    (case validate_indices (map PInt indices) (db_size srv) of
                       Inl e \<Rightarrow> Inl e
                     | Inr u \<Rightarrow>
                         (case get_entries (database srv) (map PInt indices) of
                            Inl e \<Rightarrow> Inl e
                          | Inr vs \<Rightarrow> Inr (compute_xor vs))))))"

definition set_parity_query :: "server \<Rightarrow> pyval list \<Rightarrow> error + int" where
  "set_parity_query srv indices =
     (if indices = [] then Inl (ValueError ''Indices list cannot be empty'')
      else
        (case validate_indices indices (db_size srv) of
           Inl e \<Rightarrow> Inl e
         | Inr u \<Rightarrow>
             (case get_entries (database srv) indices of
                Inl e \<Rightarrow> Inl e
              | Inr vs \<Rightarrow> Inr (compute_xor vs))))"

section \<open>handlers.py\<close>

text \<open>
  What a handler reads of a Flask request: the method, \<open>request.is_json\<close>, and the
  outcome of \<open>request.get_json()\<close> (the parsed body, or the exception Flask raises on a body
  it cannot parse). A response is the JSON body and the status code; headers are left out.
\<close>

record request =
  req_method :: string
  req_is_json :: bool
  req_get_json :: "error + pyval"

datatype body =
    EmptyBody
  | ErrorBody string
  | ValueBody int
  | ParityBody int
  | HealthBody health

type_synonym response = "body \<times> nat"

text \<open>\<open>bytes.fromhex\<close>: two hexadecimal digits per byte, either case, ASCII whitespace
  skipped between bytes; \<open>None\<close> is its \<open>ValueError\<close>.\<close>

definition hex_val :: "char \<Rightarrow> nat option" where
  "hex_val c =
     (let n = of_char c :: nat
      in if 48 \<le> n \<and> n \<le> 57 then Some (n - 48)
         else if 97 \<le> n \<and> n \<le> 102 then Some (n - 87)
         else if 65 \<le> n \<and> n \<le> 70 then Some (n - 55)
         else None)"

definition is_space :: "char \<Rightarrow> bool" where
  "is_space c = (of_char c \<in> {9, 10, 11, 12, 13, 32 :: nat})"

fun fromhex :: "string \<Rightarrow> byte list option" where
  "fromhex [] = Some []"
| "fromhex [c] = (if is_space c then Some [] else None)"
| "fromhex (c # d # rest) =
     (if is_space c then fromhex (d # rest)
      else
        (case (hex_val c, hex_val d) of
           (Some h, Some l) \<Rightarrow>
             (case fromhex rest of None \<Rightarrow> None | Some bs \<Rightarrow> Some (of_nat (16 * h + l) # bs))
         | _ \<Rightarrow> None))"

text \<open>\<open>field in data\<close> and \<open>data[field]\<close> for the values JSON can produce: a dict is looked
  up by key, a list is searched for the string and a string for the substring, a number has
  no \<open>in\<close>; only a dict can be read at a string.\<close>

fun py_contains :: "string \<Rightarrow> pyval \<Rightarrow> error + bool" where
  "py_contains field (PDict kvs) = Inr (field \<in> set (map fst kvs))"
| "py_contains field (PList xs) = Inr (PStr field \<in> set xs)"
| "py_contains field (PStr s) = Inr (sublist field s)"
| "py_contains field v = Inl (TypeError ''argument is not iterable'')"

fun py_getitem :: "pyval \<Rightarrow> string \<Rightarrow> error + pyval" where
  "py_getitem (PDict kvs) field =
     (case map_of kvs field of None \<Rightarrow> Inl (KeyError field) | Some v \<Rightarrow> Inr v)"
| "py_getitem v field = Inl (TypeError ''indices must be integers'')"

text \<open>\<open>[field for field in required_fields if field not in data]\<close>.\<close>

fun missing_fields :: "string list \<Rightarrow> pyval \<Rightarrow> error + string list" where
  "missing_fields [] d = Inr []"
| "missing_fields (field # rest) d =
     (case py_contains field d of
        Inl e \<Rightarrow> Inl e
      | Inr present \<Rightarrow>
          (case missing_fields rest d of
             Inl e \<Rightarrow> Inl e
           | Inr ms \<Rightarrow> Inr (if present then ms else field # ms)))"

text \<open>The \<open>repr\<close> of a list of plain strings: \<open>['a', 'b']\<close>.\<close>

fun join_reprs :: "string list \<Rightarrow> string" where
  "join_reprs [] = []"
| "join_reprs [f] = [CHR 0x27] @ f @ [CHR 0x27]"
| "join_reprs (f # g # rest) = [CHR 0x27] @ f @ [CHR 0x27] @ '', '' @ join_reprs (g # rest)"

definition py_repr_strs :: "string list \<Rightarrow> string" where
  "py_repr_strs fs = ''['' @ join_reprs fs @ '']''"

definition validate_json_request :: "request \<Rightarrow> string list \<Rightarrow> error + pyval" where
  "validate_json_request req required_fields =
     (if \<not> req_is_json req then Inl (ValueError ''Request must contain JSON data'')
      else
        (case req_get_json req of
           Inl e \<Rightarrow> Inl e
         | Inr d \<Rightarrow>
             if d = PNone then Inl (ValueError ''Invalid JSON data'')
             else if required_fields = [] then Inr d
             else
               (case missing_fields required_fields d of
                  Inl e \<Rightarrow> Inl e
                | Inr ms \<Rightarrow>
                    if ms \<noteq> [] then Inl (ValueError (''Missing required fields: '' @ py_repr_strs ms))
                    else Inr d)))"

text \<open>
  Every handler ends with the same two clauses: a \<open>ValueError\<close> becomes status 400 with the
  exception's message as the error body, any other exception status 500 with a fixed
  message. \<open>cors_middleware\<close> answers \<open>OPTIONS\<close> itself; nothing escapes a handler's own
  \<open>try\<close>, so its \<open>except\<close> clause is never reached.
\<close>

definition handle_errors :: "(int \<Rightarrow> body) \<Rightarrow> error + int \<Rightarrow> response" where
  "handle_errors mk r =
     (case r of
        Inr v \<Rightarrow> (mk v, 200)
      | Inl (ValueError m) \<Rightarrow> (ErrorBody m, 400)
      | Inl e \<Rightarrow> (ErrorBody ''Internal server error'', 500))"

definition cors_middleware :: "(request \<Rightarrow> response) \<Rightarrow> request \<Rightarrow> response" where
  "cors_middleware func req = (if req_method req = ''OPTIONS'' then (EmptyBody, 200) else func req)"

definition health_handler :: "server \<Rightarrow> request \<Rightarrow> response" where
  "health_handler srv = cors_middleware (\<lambda>req. (HealthBody (health_check srv), 200))"

definition plaintext_query_try :: "server \<Rightarrow> request \<Rightarrow> error + int" where
  "plaintext_query_try srv req =
     (case validate_json_request req [''index''] of
        Inl e \<Rightarrow> Inl e
      | Inr d \<Rightarrow>
          (case py_getitem d ''index'' of
             Inl e \<Rightarrow> Inl e
           | Inr index \<Rightarrow>
               (case py_int index of
                  None \<Rightarrow> Inl (ValueError ''Index must be an integer'')
                | Some i \<Rightarrow>
                    (case validate_index index (db_size srv) of
                       Inl e \<Rightarrow> Inl e
                     | Inr u \<Rightarrow> get_entry (database srv) i))))"

definition plaintext_query_handler :: "server \<Rightarrow> request \<Rightarrow> response" where
  "plaintext_query_handler srv =
     cors_middleware (\<lambda>req. handle_errors ValueBody (plaintext_query_try srv req))"

definition full_set_query_try :: "server \<Rightarrow> request \<Rightarrow> error + int" where
  "full_set_query_try srv req =
     (case validate_json_request req [''prf_key''] of
        Inl e \<Rightarrow> Inl e
      | Inr d \<Rightarrow>
          (case py_getitem d ''prf_key'' of
             Inl e \<Rightarrow> Inl e
           | Inr prf_key_hex \<Rightarrow>
               (case prf_key_hex of
                  PStr s \<Rightarrow>
                    (case fromhex s of
                       None \<Rightarrow> Inl (ValueError ''Invalid hex string for prf_key'')
                     | Some prf_key_bytes \<Rightarrow>
                         (case validate_prf_key (PBytes prf_key_bytes) of
                            Inl e \<Rightarrow> Inl e
                          | Inr k \<Rightarrow> full_set_query srv (PBytes prf_key_bytes)))
                | _ \<Rightarrow> Inl (ValueError ''PRF key must be a hex string''))))"

definition full_set_query_handler :: "server \<Rightarrow> request \<Rightarrow> response" where
  "full_set_query_handler srv =
     cors_middleware (\<lambda>req. handle_errors ValueBody (full_set_query_try srv req))"

text \<open>\<open>for idx in indices: if not isinstance(idx, int): raise ...; validate_index(...)\<close>.\<close>

fun check_indices :: "pyval list \<Rightarrow> int \<Rightarrow> error + unit" where
  "check_indices [] n = Inr ()"
| "check_indices (idx # rest) n =
     (if py_int idx = None then Inl (ValueError ''All indices must be integers'')
      else
        (case validate_index idx n of Inl e \<Rightarrow> Inl e | Inr u \<Rightarrow> check_indices rest n))"

definition set_parity_query_try :: "server \<Rightarrow> request \<Rightarrow> error + int" where
  "set_parity_query_try srv req =
     (case validate_json_request req [''indices''] of
        Inl e \<Rightarrow> Inl e
      | Inr d \<Rightarrow>
          (case py_getitem d ''indices'' of
             Inl e \<Rightarrow> Inl e
           | Inr indices \<Rightarrow>
               (case indices of
                  PList xs \<Rightarrow>
                    if xs = [] then Inl (ValueError ''Indices list cannot be empty'')
                    else
                      (case check_indices xs (db_size srv) of
                         Inl e \<Rightarrow> Inl e
                       | Inr u \<Rightarrow> set_parity_query srv xs)
                | _ \<Rightarrow> Inl (ValueError ''Indices must be a list''))))"

definition set_parity_query_handler :: "server \<Rightarrow> request \<Rightarrow> response" where
  "set_parity_query_handler srv =
     cors_middleware (\<lambda>req. handle_errors ParityBody (set_parity_query_try srv req))"

section \<open>Definitions after the specification's words, and example data\<close>

text \<open>The 64-bit pseudorandom word of the specification, section 4.A: the scalar placed
  big-endian in the low 8 bytes of a zero block, the block encrypted under the key, the
  leading 8 bytes of the output read big-endian.\<close>

definition msb64_prf :: "byte list \<Rightarrow> int \<Rightarrow> int" where
  "msb64_prf key x =
     be_decode (take 8 (aes128_encrypt_block key (replicate 8 0 @ be_encode8 x)))"

text \<open>\<open>prf_eval_mod(x, m) = msb64(prf(key, encode(x))) mod m\<close>, and \<open>0\<close> if \<open>m = 0\<close>.\<close>

definition spec_prf_eval_mod :: "byte list \<Rightarrow> int \<Rightarrow> int \<Rightarrow> int" where
  "spec_prf_eval_mod key x m = (if m = 0 then 0 else msb64_prf key x mod m)"

text \<open>The database a successful \<open>load\<close> of the file \<open>f\<close> leaves behind.\<close>

definition loaded :: "string \<Rightarrow> byte list \<Rightarrow> database" where
  "loaded path f =
     \<lparr>db_path = path,
      data = map (\<lambda>i. be_decode (take 8 (drop (i * 8) f))) [0..<length f div 8],
      size_db = int (length f div 8),
      entry_size = 8\<rparr>"

definition zero_key :: "byte list" where
  "zero_key = replicate 16 0"

definition db_empty :: database where
  "db_empty = \<lparr>db_path = ''data/database.bin'', data = [], size_db = 0, entry_size = 8\<rparr>"

definition db_three :: database where
  "db_three =
     \<lparr>db_path = ''data/database.bin'', data = [0, 1000, 2000], size_db = 3, entry_size = 8\<rparr>"

text \<open>The \<open>i\<close>-th record of the database file as the specification describes it: bytes
  \<open>8i .. 8i+7\<close>, most significant first.\<close>

definition spec_record :: "byte list \<Rightarrow> nat \<Rightarrow> int" where
  "spec_record f i = sum_list (map (\<lambda>j. uint (f ! (8 * i + j)) * 256 ^ (7 - j)) [0..<8])"

text \<open>The XOR of a list of values, as a fold from the right.\<close>

definition xor_all :: "int list \<Rightarrow> int" where
  "xor_all vs = foldr (XOR) vs 0"

text \<open>A file of two records, 7 and 1000.\<close>

definition file_two :: "byte list" where
  "file_two = [0, 0, 0, 0, 0, 0, 0, 7, 0, 0, 0, 0, 0, 0, 3, 232]"

text \<open>A \<open>POST\<close> request with a JSON body that parsed to \<open>d\<close>.\<close>

definition post_json :: "pyval \<Rightarrow> request" where
  "post_json d = \<lparr>req_method = ''POST'', req_is_json = True, req_get_json = Inr d\<rparr>"

definition hex_zero_key :: string where
  "hex_zero_key = ''00000000000000000000000000000000''"

text \<open>The message of the \<open>ValueError\<close> that \<open>validate_index\<close> raises for an integer outside
  \<open>[0, n)\<close>.\<close>

definition index_error_message :: "int \<Rightarrow> int \<Rightarrow> string" where
  "index_error_message i n =
     (if i < 0 then ''Index cannot be negative: '' @ str_int i
      else ''Index '' @ str_int i @ '' out of bounds [0, '' @ str_int n @ '')'')"

section \<open>Lemmas\<close>

subsection \<open>The cipher, the PRF and the expansion loop\<close>

lemma length_xor_bytes: "length (xor_bytes xs ys) = min (length xs) (length ys)"
  by (simp add: xor_bytes_def)

lemma length_shift_rows: "length (shift_rows s) = 16"
  by (simp add: shift_rows_def)

lemma length_next_round_key:
  "length rk = 16 \<Longrightarrow> length (next_round_key rcon rk) = 16"
  by (simp add: next_round_key_def Let_def length_xor_bytes)

lemma length_aes_rounds:
  "0 < n \<Longrightarrow> length rk = 16 \<Longrightarrow> length (aes_rounds n rcon rk s) = 16"
proof (induction n rcon rk s rule: aes_rounds.induct)
  case (1 rcon rk s)
  then show ?case by simp
next
  case (2 rcon rk s)
  then show ?case
    by (simp add: length_xor_bytes length_shift_rows length_next_round_key)
next
  case (3 v rcon rk s)
  then show ?case
    by (simp add: Let_def length_next_round_key)
qed

lemma length_aes128_encrypt_block:
  "length key = 16 \<Longrightarrow> length (aes128_encrypt_block key block) = 16"
  by (simp add: aes128_encrypt_block_def length_aes_rounds)



lemma length_be_encode8: "length (be_encode8 v) = 8"
  by (simp add: be_encode8_def)

lemma prf_eval_mod_zero: "prf_eval_mod key x 0 = Inr 0"
  by (simp add: prf_eval_mod_def)

lemma prf_eval_mod_ok:
  assumes "length key = 16" "0 \<le> x" "x < 2 ^ 64" "m \<noteq> 0"
  shows "prf_eval_mod key x m = Inr (msb64_prf key x mod m)"
  using assms
  by (simp add: prf_eval_mod_def pack_into_Q_def unpack_Q_def msb64_prf_def Let_def
      length_aes128_encrypt_block length_be_encode8)

lemma prf_eval_mod_range:
  assumes "m \<noteq> 0" "x < 0 \<or> 2 ^ 64 \<le> x"
  shows "prf_eval_mod key x m = Inl (StructError ''int too large to convert'')"
  using assms by (auto simp add: prf_eval_mod_def pack_into_Q_def)



lemma prf_eval_mod_spec:
  assumes "length key = 16" "m = 0 \<or> (0 \<le> x \<and> x < 2 ^ 64)"
  shows "prf_eval_mod key x m = Inr (spec_prf_eval_mod key x m)"
  using assms by (auto simp add: spec_prf_eval_mod_def prf_eval_mod_zero prf_eval_mod_ok)

lemma expand_loop_ok:
  assumes "length key = 16" "c = 0 \<or> int k \<le> 2 ^ 64"
  shows "expand_loop key c k = Inr (map (\<lambda>i. int i * c + spec_prf_eval_mod key (int i) c) [0..<k])"
  using assms(2)
proof (induction k)
  case 0
  then show ?case by simp
next
  case (Suc k)
  from Suc.prems have small: "c = 0 \<or> int k \<le> 2 ^ 64" by auto
  from Suc.prems have "c = 0 \<or> (0 \<le> int k \<and> int k < 2 ^ 64)" by auto
  then have "prf_eval_mod key (int k) c = Inr (spec_prf_eval_mod key (int k) c)"
    using assms(1) by (simp add: prf_eval_mod_spec)
  then show ?case using Suc.IH [OF small] by simp
qed

lemma expand_loop_fail:
  assumes "length key = 16" "c \<noteq> 0" "2 ^ 64 < int k"
  shows "expand_loop key c k = Inl (StructError ''int too large to convert'')"
  using assms(3)
proof (induction k)
  case 0
  then show ?case by simp
next
  case (Suc k)
  show ?case
  proof (cases "2 ^ 64 < int k")
    case True
    then show ?thesis using Suc.IH by simp
  next
    case False
    then have le: "int k \<le> 2 ^ 64" by simp
    with Suc.prems have "2 ^ 64 \<le> int k" by simp
    then have "prf_eval_mod key (int k) c = Inl (StructError ''int too large to convert'')"
      using assms(2) by (simp add: prf_eval_mod_range)
    then show ?thesis using expand_loop_ok [OF assms(1), of c k] le by simp
  qed
qed

lemma spec_prf_eval_mod_bounds:
  "1 \<le> c \<Longrightarrow> 0 \<le> spec_prf_eval_mod key x c \<and> spec_prf_eval_mod key x c < c"
  by (simp add: spec_prf_eval_mod_def)

lemma chunk_bounds:
  assumes "1 \<le> (c::int)" "0 \<le> off" "off < c"
  shows "i * c \<le> i * c + off \<and> i * c + off < (i + 1) * c"
  using assms by (simp add: algebra_simps)

subsection \<open>The PIR parameters\<close>

lemma chunk_size_pos: "1 \<le> chunk_size (PlinkoPIRServer db)"
  by (simp add: PlinkoPIRServer_def Let_def)

lemma set_size_pos: "1 \<le> set_size (PlinkoPIRServer db)"
  by (simp add: PlinkoPIRServer_def Let_def)

lemma db_size_server: "db_size (PlinkoPIRServer db) = size_db db"
  by (simp add: PlinkoPIRServer_def Let_def get_size_def)

lemma database_server: "database (PlinkoPIRServer db) = db"
  by (simp add: PlinkoPIRServer_def Let_def get_size_def)

lemma div_mult_le_int: "0 < (c::int) \<Longrightarrow> n div c * c \<le> n"
  by (simp add: minus_mod_eq_div_mult [symmetric])

lemma params_product:
  assumes "1 \<le> (n::int)"
  shows "max 1 (n div max 1 (n div 1024)) * max 1 (n div 1024) \<le> n"
proof -
  define c where "c = max 1 (n div 1024)"
  have c_pos: "0 < c" by (simp add: c_def)
  have "n div 1024 \<le> n" using assms by arith
  with assms have c_le: "c \<le> n" by (simp add: c_def)
  with c_pos have "0 < n div c" by (simp add: pos_imp_zdiv_pos_iff)
  then have "max 1 (n div c) = n div c" by simp
  then show ?thesis using div_mult_le_int [OF c_pos, of n] by (simp add: c_def)
qed

lemma params_set_size_small:
  assumes "0 \<le> (n::int)"
  shows "max 1 (n div max 1 (n div 1024)) \<le> 2047"
proof (cases "n < 1024")
  case True
  with assms have "n div 1024 = 0" by simp
  with True show ?thesis by simp
next
  case False
  define q where "q = n div 1024"
  from False have q_pos: "1 \<le> q" unfolding q_def by simp
  have "n = q * 1024 + n mod 1024" unfolding q_def by simp
  moreover have "n mod 1024 < 1024" by simp
  ultimately have lt: "n < 2048 * q" using q_pos by linarith
  have "n div q < 2048"
  proof (rule ccontr)
    assume "\<not> n div q < 2048"
    then have "2048 \<le> n div q" by simp
    then have "2048 * q \<le> n div q * q" using q_pos by (simp add: mult_right_mono)
    also have "\<dots> \<le> n" using q_pos by (simp add: div_mult_le_int)
    finally show False using lt by simp
  qed
  then show ?thesis using q_pos by (simp add: q_def)
qed

subsection \<open>Loading the database\<close>

lemma be_decode_snoc: "be_decode (bs @ [b]) = be_decode bs * 256 + uint b"
  by (simp add: be_decode_def)

lemma be_decode_bounds: "0 \<le> be_decode bs \<and> be_decode bs < 256 ^ length bs"
proof (induction bs rule: rev_induct)
  case Nil
  then show ?case by (simp add: be_decode_def)
next
  case (snoc b bs)
  have "uint b < 256" using uint_bounded [of b] by simp
  moreover have "0 \<le> uint b" by simp
  ultimately show ?case using snoc by (simp add: be_decode_snoc)
qed

lemma load_entries_ok:
  "k * 8 \<le> length f \<Longrightarrow>
   load_entries f 8 k = Inr (map (\<lambda>i. be_decode (take 8 (drop (i * 8) f))) [0..<k])"
proof (induction k)
  case 0
  then show ?case by simp
next
  case (Suc k)
  then have "length (take 8 (drop (k * 8) f)) = 8" by simp
  then have "unpack_Q (take 8 (drop (k * 8) f)) = Inr (be_decode (take 8 (drop (k * 8) f)))"
    by (simp add: unpack_Q_def)
  with Suc show ?case by simp
qed



lemma load_ok:
  assumes "length f mod 8 = 0"
  shows "load (database_init path) t (Some f) = Inr (loaded path f)"
proof -
  have m: "int (length f) mod 8 = 0" using assms by presburger
  have "int (length f) div 8 = int (length f div 8)" by (simp add: zdiv_int)
  then have d: "nat (int (length f) div 8) = length f div 8" by simp
  have "length f div 8 * 8 \<le> length f" by simp
  then have "load_entries f 8 (length f div 8)
      = Inr (map (\<lambda>i. be_decode (take 8 (drop (i * 8) f))) [0..<length f div 8])"
    by (rule load_entries_ok)
  then show ?thesis using m d
    by (simp add: load_def database_init_def loaded_def Let_def zdiv_int)
qed

lemma load_Inr:
  assumes "load (database_init path) t file = Inr db"
  shows "\<exists>f. file = Some f \<and> length f mod 8 = 0 \<and> db = loaded path f"
proof (cases "file")
  case None
  with assms show ?thesis by (simp add: load_def split: if_splits)
next
  case (Some f)
  have "length f mod 8 = 0"
  proof (rule ccontr)
    assume "length f mod 8 \<noteq> 0"
    then have "int (length f) mod 8 \<noteq> 0" by presburger
    with assms Some show False by (simp add: load_def database_init_def)
  qed
  with assms Some show ?thesis by (simp add: load_ok)
qed

lemma list8:
  assumes "length bs = 8"
  obtains b0 b1 b2 b3 b4 b5 b6 b7 where "bs = [b0, b1, b2, b3, b4, b5, b6, b7]"
  using assms by (auto simp: eval_nat_numeral length_Suc_conv)

lemma upt8: "[0..<8] = [0, 1, 2, 3, 4, 5, 6, 7]"
  by (simp add: upt_rec)

lemma be_decode_8:
  assumes "length bs = 8"
  shows "be_decode bs = sum_list (map (\<lambda>j. uint (bs ! j) * 256 ^ (7 - j)) [0..<8])"
proof -
  from assms obtain b0 b1 b2 b3 b4 b5 b6 b7 where "bs = [b0, b1, b2, b3, b4, b5, b6, b7]"
    by (rule list8)
  then show ?thesis by (simp add: be_decode_def upt8)
qed

lemma be_decode_slice:
  assumes "8 * i + 8 \<le> length f"
  shows "be_decode (take 8 (drop (i * 8) f)) = spec_record f i"
proof -
  have l: "length (take 8 (drop (i * 8) f)) = 8" using assms by simp
  have "\<And>j. j < 8 \<Longrightarrow> take 8 (drop (i * 8) f) ! j = f ! (8 * i + j)"
    using assms by (simp add: mult.commute)
  then have "map (\<lambda>j. uint (take 8 (drop (i * 8) f) ! j) * 256 ^ (7 - j)) [0..<8]
      = map (\<lambda>j. uint (f ! (8 * i + j)) * 256 ^ (7 - j)) [0..<8]"
    by (intro map_cong) auto
  then show ?thesis by (simp only: be_decode_8 [OF l] spec_record_def)
qed

lemma loaded_size: "size_db (loaded path f) = int (length (data (loaded path f)))"
  by (simp add: loaded_def)

lemma loaded_nth:
  assumes "i < length f div 8"
  shows "data (loaded path f) ! i = spec_record f i"
proof -
  from assms have "8 * i + 8 \<le> length f" by presburger
  then have "be_decode (take 8 (drop (i * 8) f)) = spec_record f i" by (rule be_decode_slice)
  with assms show ?thesis by (simp add: loaded_def)
qed

lemma spec_record_bounds:
  assumes "i < length f div 8"
  shows "0 \<le> spec_record f i \<and> spec_record f i < 2 ^ 64"
proof -
  from assms have le: "8 * i + 8 \<le> length f" by presburger
  then have l: "length (take 8 (drop (i * 8) f)) = 8" by simp
  have "0 \<le> be_decode (take 8 (drop (i * 8) f)) \<and>
        be_decode (take 8 (drop (i * 8) f)) < 256 ^ length (take 8 (drop (i * 8) f))"
    by (rule be_decode_bounds)
  then have "0 \<le> be_decode (take 8 (drop (i * 8) f)) \<and>
        be_decode (take 8 (drop (i * 8) f)) < 256 ^ 8" unfolding l .
  then show ?thesis unfolding be_decode_slice [OF le] by simp
qed

subsection \<open>Index validation and the engine's queries\<close>

lemma validate_index_PInt:
  "validate_index (PInt i) n =
     (if i < 0 then Inl (ValueError (''Index cannot be negative: '' @ str_int i))
      else if n \<le> i
        then Inl (ValueError (''Index '' @ str_int i @ '' out of bounds [0, '' @ str_int n @ '')''))
      else Inr ())"
  by (simp add: validate_index_def)

lemma validate_index_Inr:
  "validate_index x n = Inr u \<longleftrightarrow> (\<exists>i. py_int x = Some i \<and> 0 \<le> i \<and> i < n)"
  by (auto simp add: validate_index_def split: option.splits)

lemma validate_index_Inl:
  "validate_index x n = Inl e \<Longrightarrow> \<exists>m. e = ValueError m"
  by (auto simp add: validate_index_def split: option.splits if_splits)

lemma get_entry_ok:
  assumes "size_db db = int (length (data db))" "0 \<le> i" "i < size_db db"
  shows "get_entry db i = Inr (data db ! nat i)"
  using assms by (simp add: get_entry_def)

lemma compute_xor_loop_foldr: "compute_xor_loop acc vs = acc XOR foldr (XOR) vs 0"
  by (induction vs arbitrary: acc) (simp_all add: xor.assoc)

lemma compute_xor_xor_all: "compute_xor vs = xor_all vs"
  by (simp add: compute_xor_def xor_all_def compute_xor_loop_foldr)

lemma validate_indices_Inr:
  "validate_indices L n = Inr u \<longleftrightarrow> (\<forall>x \<in> set L. \<exists>i. py_int x = Some i \<and> 0 \<le> i \<and> i < n)"
proof (induction L)
  case Nil
  then show ?case by simp
next
  case (Cons x L)
  show ?case
  proof (cases "validate_index x n")
    case (Inl e)
    then have "\<not> (\<exists>i. py_int x = Some i \<and> 0 \<le> i \<and> i < n)"
      using validate_index_Inr [of x n "()"] by simp
    with Inl show ?thesis by simp
  next
    case (Inr v)
    then have "\<exists>i. py_int x = Some i \<and> 0 \<le> i \<and> i < n"
      using validate_index_Inr [of x n v] by simp
    with Inr Cons show ?thesis by simp
  qed
qed

lemma validate_indices_Inl:
  "validate_indices L n = Inl e \<Longrightarrow> \<exists>m. e = ValueError m"
proof (induction L)
  case Nil
  then show ?case by simp
next
  case (Cons x L)
  then show ?case
    by (cases "validate_index x n") (auto dest: validate_index_Inl)
qed

lemma get_entries_ok:
  assumes "size_db db = int (length (data db))"
    and "\<forall>x \<in> set L. \<exists>i. py_int x = Some i \<and> 0 \<le> i \<and> i < size_db db"
  shows "get_entries db L = Inr (map (\<lambda>x. data db ! nat (the (py_int x))) L)"
  using assms(2)
proof (induction L)
  case Nil
  then show ?case by simp
next
  case (Cons x L)
  then obtain i where i: "py_int x = Some i" "0 \<le> i" "i < size_db db" by auto
  have "get_entry db i = Inr (data db ! nat i)" using assms(1) i by (intro get_entry_ok)
  with Cons i show ?case by simp
qed

lemma set_parity_query_ok:
  assumes "size_db db = int (length (data db))" "L \<noteq> []"
    and "\<forall>x \<in> set L. \<exists>i. py_int x = Some i \<and> 0 \<le> i \<and> i < size_db db"
  shows "set_parity_query (PlinkoPIRServer db) L
           = Inr (xor_all (map (\<lambda>x. data db ! nat (the (py_int x))) L))"
proof -
  have "validate_indices L (size_db db) = Inr ()"
    using assms(3) by (simp add: validate_indices_Inr)
  then show ?thesis
    using assms(2) get_entries_ok [OF assms(1) assms(3)]
    by (simp add: set_parity_query_def db_size_server database_server compute_xor_xor_all)
qed

lemma set_parity_query_bad:
  assumes "L = [] \<or> \<not> (\<forall>x \<in> set L. \<exists>i. py_int x = Some i \<and> 0 \<le> i \<and> i < size_db db)"
  shows "\<exists>m. set_parity_query (PlinkoPIRServer db) L = Inl (ValueError m)"
proof (cases "L = []")
  case True
  then show ?thesis by (simp add: set_parity_query_def)
next
  case False
  with assms have "validate_indices L (size_db db) \<noteq> Inr ()"
    by (simp add: validate_indices_Inr)
  then obtain e where e: "validate_indices L (size_db db) = Inl e"
    by (cases "validate_indices L (size_db db)") auto
  then obtain m where "e = ValueError m" by (auto dest: validate_indices_Inl)
  with e False show ?thesis by (simp add: set_parity_query_def db_size_server)
qed

lemma py_int_invalid_one:
  "\<not> (\<exists>i. py_int x = Some i \<and> 0 \<le> i \<and> i < n) \<longleftrightarrow>
   py_int x = None \<or> (\<exists>i. py_int x = Some i \<and> (i < 0 \<or> n \<le> i))"
  by (cases "py_int x") auto

lemma py_int_invalid_iff:
  "\<not> (\<forall>x \<in> set L. \<exists>i. py_int x = Some i \<and> 0 \<le> i \<and> i < n) \<longleftrightarrow>
   (\<exists>x \<in> set L. py_int x = None) \<or> (\<exists>x \<in> set L. \<exists>i. py_int x = Some i \<and> (i < 0 \<or> n \<le> i))"
proof -
  have "\<not> (\<forall>x \<in> set L. \<exists>i. py_int x = Some i \<and> 0 \<le> i \<and> i < n) \<longleftrightarrow>
        (\<exists>x \<in> set L. \<not> (\<exists>i. py_int x = Some i \<and> 0 \<le> i \<and> i < n))" by blast
  also have "\<dots> \<longleftrightarrow> (\<exists>x \<in> set L. py_int x = None \<or> (\<exists>i. py_int x = Some i \<and> (i < 0 \<or> n \<le> i)))"
    by (simp only: py_int_invalid_one)
  also have "\<dots> \<longleftrightarrow> (\<exists>x \<in> set L. py_int x = None) \<or>
        (\<exists>x \<in> set L. \<exists>i. py_int x = Some i \<and> (i < 0 \<or> n \<le> i))" by blast
  finally show ?thesis .
qed

lemma set_parity_query_loaded:
  assumes ne: "M \<noteq> []"
    and ok: "\<forall>x \<in> set M. \<exists>i. py_int x = Some i \<and> 0 \<le> i \<and> i < int (length f div 8)"
  shows "set_parity_query (PlinkoPIRServer (loaded path f)) M
           = Inr (xor_all (map (\<lambda>x. spec_record f (nat (the (py_int x)))) M))"
proof -
  have n: "size_db (loaded path f) = int (length f div 8)" by (simp add: loaded_def)
  from ok have ok': "\<forall>x \<in> set M. \<exists>i. py_int x = Some i \<and> 0 \<le> i \<and> i < size_db (loaded path f)"
    unfolding n .
  have "map (\<lambda>x. data (loaded path f) ! nat (the (py_int x))) M
      = map (\<lambda>x. spec_record f (nat (the (py_int x)))) M"
  proof (rule map_cong [OF refl])
    fix x assume "x \<in> set M"
    with ok obtain i where i: "py_int x = Some i" "0 \<le> i" "i < int (length f div 8)" by blast
    then have "nat i < length f div 8" by linarith
    then have "data (loaded path f) ! nat i = spec_record f (nat i)" by (rule loaded_nth)
    with i show "data (loaded path f) ! nat (the (py_int x)) = spec_record f (nat (the (py_int x)))"
      by simp
  qed
  with set_parity_query_ok [OF loaded_size ne ok'] show ?thesis by simp
qed

subsection \<open>The expansion on the server's parameters\<close>

lemma expand_chunks:
  assumes "length key = 16" "0 \<le> k" "k \<le> 2 ^ 64" "1 \<le> c"
  shows "\<exists>ixs. expand key k c = Inr ixs \<and> length ixs = nat k \<and>
           (\<forall>i < nat k. int i * c \<le> ixs ! i \<and> ixs ! i < (int i + 1) * c)"
proof -
  let ?xs = "map (\<lambda>i. int i * c + spec_prf_eval_mod key (int i) c) [0..<nat k]"
  have "int (nat k) = k" using assms(2) by simp
  with assms(3) have "c = 0 \<or> int (nat k) \<le> 2 ^ 64" by simp
  then have e: "expand key k c = Inr ?xs"
    unfolding expand_def by (rule expand_loop_ok [OF assms(1)])
  have "\<forall>i < nat k. int i * c \<le> ?xs ! i \<and> ?xs ! i < (int i + 1) * c"
  proof (intro allI impI)
    fix i assume "i < nat k"
    then have "?xs ! i = int i * c + spec_prf_eval_mod key (int i) c" by simp
    then show "int i * c \<le> ?xs ! i \<and> ?xs ! i < (int i + 1) * c"
      using chunk_bounds [of c "spec_prf_eval_mod key (int i) c" "int i"]
        spec_prf_eval_mod_bounds [OF assms(4), of key "int i"] assms(4) by simp
  qed
  with e show ?thesis by (intro exI [of _ ?xs]) simp
qed

lemma chunk_below_product:
  assumes "i < nat k" "1 \<le> (c::int)" "x < (int i + 1) * c"
  shows "x < k * c"
proof -
  from assms(1) have "int i + 1 \<le> k" by linarith
  then have "(int i + 1) * c \<le> k * c" using assms(2) by (simp add: mult_right_mono)
  with assms(3) show ?thesis by linarith
qed

lemma expand_server:
  assumes "length key = 16" "0 \<le> size_db db"
  shows "\<exists>ixs. expand key (set_size (PlinkoPIRServer db)) (chunk_size (PlinkoPIRServer db)) = Inr ixs \<and>
           ixs \<noteq> [] \<and>
           (\<forall>x \<in> set ixs. 0 \<le> x \<and>
              x < set_size (PlinkoPIRServer db) * chunk_size (PlinkoPIRServer db))"
proof -
  let ?k = "set_size (PlinkoPIRServer db)" and ?c = "chunk_size (PlinkoPIRServer db)"
  have k1: "1 \<le> ?k" by (rule set_size_pos)
  have c1: "1 \<le> ?c" by (rule chunk_size_pos)
  have "?k \<le> 2047"
    using params_set_size_small [OF assms(2)] by (simp add: PlinkoPIRServer_def Let_def get_size_def)
  then have k64: "?k \<le> 2 ^ 64" by simp
  from k1 have k0: "0 \<le> ?k" by simp
  from expand_chunks [OF assms(1) k0 k64 c1]
  obtain ixs where e: "expand key ?k ?c = Inr ixs" and l: "length ixs = nat ?k"
    and b: "\<forall>i < nat ?k. int i * ?c \<le> ixs ! i \<and> ixs ! i < (int i + 1) * ?c" by blast
  from l k1 have ne: "ixs \<noteq> []" by auto
  have "\<forall>x \<in> set ixs. 0 \<le> x \<and> x < ?k * ?c"
  proof
    fix x assume "x \<in> set ixs"
    then obtain i where i: "i < length ixs" "x = ixs ! i" by (auto simp: in_set_conv_nth)
    then have ik: "i < nat ?k" using l by simp
    with b i have lo: "int i * ?c \<le> x" and hi: "x < (int i + 1) * ?c" by auto
    have "0 \<le> int i * ?c" using c1 by simp
    with lo have "0 \<le> x" by linarith
    moreover have "x < ?k * ?c" using ik c1 hi by (rule chunk_below_product)
    ultimately show "0 \<le> x \<and> x < ?k * ?c" by blast
  qed
  with e ne show ?thesis by blast
qed

lemma full_set_query_unfold:
  assumes "length key = 16" "expand key (set_size srv) (chunk_size srv) = Inr ixs" "ixs \<noteq> []"
  shows "full_set_query srv (PBytes key) = set_parity_query srv (map PInt ixs)"
  using assms
  by (simp add: full_set_query_def set_parity_query_def validate_prf_key_def PrfKey128_def)

lemma str_int_0: "str_int 0 = ''0''"
  by (simp add: str_int_def str_nat.simps digit_char_def)

lemma expand_one_one:
  assumes "length key = 16"
  shows "expand key 1 1 = Inr [0]"
proof -
  have "expand_loop key 1 (Suc 0) = Inr [0]"
    using prf_eval_mod_spec [OF assms, of 1 0] by (simp add: spec_prf_eval_mod_def)
  then show ?thesis by (simp add: expand_def)
qed

lemma full_set_query_empty:
  assumes "length key = 16" "size_db db = 0"
  shows "full_set_query (PlinkoPIRServer db) (PBytes key)
           = Inl (ValueError ''Index 0 out of bounds [0, 0)'')"
proof -
  have p: "set_size (PlinkoPIRServer db) = 1" "chunk_size (PlinkoPIRServer db) = 1"
    "db_size (PlinkoPIRServer db) = 0"
    using assms(2) by (simp_all add: PlinkoPIRServer_def Let_def get_size_def)
  show ?thesis
    using assms(1) expand_one_one [OF assms(1)]
    by (simp add: full_set_query_def p validate_prf_key_def PrfKey128_def validate_index_PInt
        str_int_0)
qed

subsection \<open>Example data\<close>

lemma file_two_load:
  "load (database_init ''data/database.bin'') 0 (Some file_two)
     = Inr (loaded ''data/database.bin'' file_two)"
  by (rule load_ok) (simp add: file_two_def)

lemma file_two_records:
  "length file_two div 8 = 2" "spec_record file_two 0 = 7" "spec_record file_two (Suc 0) = 1000"
  by (simp_all add: spec_record_def upt8 file_two_def)

subsection \<open>Chunks are ordered\<close>

lemma chunk_strict_mono:
  assumes "1 \<le> (c::int)" "i < j" "0 \<le> a" "a < c" "0 \<le> b"
  shows "int i * c + a < int j * c + b"
proof -
  from assms(2) have "int i + 1 \<le> int j" by linarith
  then have "(int i + 1) * c \<le> int j * c" using assms(1) by (simp add: mult_right_mono)
  moreover have "int i * c + a < (int i + 1) * c" using assms(4) by (simp add: algebra_simps)
  ultimately show ?thesis using assms(5) by linarith
qed

lemma sorted_wrt_chunks:
  assumes "1 \<le> c"
  shows "sorted_wrt (<) (map (\<lambda>i. int i * c + spec_prf_eval_mod key (int i) c) [0..<n])"
proof -
  have "sorted_wrt (\<lambda>i j. int i * c + spec_prf_eval_mod key (int i) c
                          < int j * c + spec_prf_eval_mod key (int j) c) [0..<n]"
  proof (rule sorted_wrt_mono_rel [of _ "(<)"])
    fix i j :: nat
    assume "i < j"
    then show "int i * c + spec_prf_eval_mod key (int i) c
             < int j * c + spec_prf_eval_mod key (int j) c"
      using spec_prf_eval_mod_bounds [OF assms, of key "int i"]
        spec_prf_eval_mod_bounds [OF assms, of key "int j"] assms
      by (intro chunk_strict_mono) simp_all
  next
    show "sorted_wrt (<) [0..<n]" by (rule sorted_wrt_upt)
  qed
  then show ?thesis by (simp add: sorted_wrt_map)
qed

subsection \<open>The handlers\<close>

lemma cors_post: "cors_middleware func (post_json d) = func (post_json d)"
  by (simp add: cors_middleware_def post_json_def)

lemma validate_json_request_field:
  "validate_json_request (post_json (PDict [(field, v)])) [field] = Inr (PDict [(field, v)])"
  by (simp add: validate_json_request_def post_json_def)

lemma full_set_query_try_hex:
  assumes "fromhex hex = Some bs"
  shows "full_set_query_try srv (post_json (PDict [(''prf_key'', PStr hex)]))
           = full_set_query srv (PBytes bs)"
  using assms
  by (simp add: full_set_query_try_def validate_json_request_field full_set_query_def
      split: sum.splits)

lemma full_set_query_handler_hex:
  assumes "fromhex hex = Some bs"
  shows "full_set_query_handler srv (post_json (PDict [(''prf_key'', PStr hex)]))
           = handle_errors ValueBody (full_set_query srv (PBytes bs))"
  by (simp add: full_set_query_handler_def cors_post full_set_query_try_hex [OF assms])

lemma handle_errors_ValueError: "handle_errors mk (Inl (ValueError m)) = (ErrorBody m, 400)"
  by (simp add: handle_errors_def)

lemma fromhex_zero_key: "fromhex hex_zero_key = Some zero_key"
  by (simp add: hex_zero_key_def zero_key_def hex_val_def is_space_def eval_nat_numeral)

subsection \<open>Rejected indices at the handlers\<close>

lemma plaintext_query_handler_rejected:
  assumes "i < 0 \<or> db_size srv \<le> i"
  shows "plaintext_query_handler srv (post_json (PDict [(''index'', PInt i)]))
           = (ErrorBody (index_error_message i (db_size srv)), 400)"
proof -
  have "validate_index (PInt i) (db_size srv)
      = Inl (ValueError (index_error_message i (db_size srv)))"
    using assms by (auto simp add: validate_index_PInt index_error_message_def)
  then have "plaintext_query_try srv (post_json (PDict [(''index'', PInt i)]))
      = Inl (ValueError (index_error_message i (db_size srv)))"
    by (simp add: plaintext_query_try_def validate_json_request_field)
  then show ?thesis
    by (simp add: plaintext_query_handler_def cors_post handle_errors_ValueError)
qed

lemma set_parity_query_handler_rejected:
  assumes "i < 0 \<or> db_size srv \<le> i"
  shows "set_parity_query_handler srv (post_json (PDict [(''indices'', PList [PInt i])]))
           = (ErrorBody (index_error_message i (db_size srv)), 400)"
proof -
  have "validate_index (PInt i) (db_size srv)
      = Inl (ValueError (index_error_message i (db_size srv)))"
    using assms by (auto simp add: validate_index_PInt index_error_message_def)
  then have "set_parity_query_try srv (post_json (PDict [(''indices'', PList [PInt i])]))
      = Inl (ValueError (index_error_message i (db_size srv)))"
    by (simp add: set_parity_query_try_def validate_json_request_field)
  then show ?thesis
    by (simp add: set_parity_query_handler_def cors_post handle_errors_ValueError)
qed

lemma str_int_small:
  "str_int 3 = ''3''" "str_int 4 = ''4''" "str_int (- 1) = ''-1''"
  by (simp_all add: str_int_def str_nat.simps digit_char_def)

subsection \<open>Checks of the byte encoding and of the cipher\<close>

lemma be_decode_digits:
  assumes "0 \<le> v"
  shows "be_decode (map (\<lambda>i. word_of_int (v div 256 ^ (k - 1 - i)) :: byte) [0..<k]) = v mod 256 ^ k"
  using assms
proof (induction k arbitrary: v)
  case 0
  then show ?case by (simp add: be_decode_def)
next
  case (Suc k)
  have d: "0 \<le> v div 256" using Suc.prems by simp
  have "map (\<lambda>i. word_of_int (v div 256 ^ (Suc k - 1 - i)) :: byte) [0..<k]
      = map (\<lambda>i. word_of_int (v div 256 div 256 ^ (k - 1 - i))) [0..<k]"
  proof (rule map_cong [OF refl])
    fix i assume "i \<in> set [0..<k]"
    then have "k - i = Suc (k - 1 - i)" by auto
    then have "v div 256 ^ (k - i) = v div (256 * 256 ^ (k - 1 - i))" by simp
    also have "\<dots> = v div 256 div 256 ^ (k - 1 - i)" by (simp add: zdiv_zmult2_eq)
    finally show "(word_of_int (v div 256 ^ (Suc k - 1 - i)) :: byte)
        = word_of_int (v div 256 div 256 ^ (k - 1 - i))" by simp
  qed
  note m = this
  have "map (\<lambda>i. word_of_int (v div 256 ^ (Suc k - 1 - i)) :: byte) [0..<Suc k]
      = map (\<lambda>i. word_of_int (v div 256 ^ (Suc k - 1 - i))) [0..<k] @ [word_of_int v]"
    by simp
  also have "\<dots> = map (\<lambda>i. word_of_int (v div 256 div 256 ^ (k - 1 - i))) [0..<k]
      @ [word_of_int v]"
    by (simp only: m)
  finally have "be_decode (map (\<lambda>i. word_of_int (v div 256 ^ (Suc k - 1 - i)) :: byte) [0..<Suc k])
      = be_decode (map (\<lambda>i. word_of_int (v div 256 div 256 ^ (k - 1 - i)) :: byte) [0..<k])
          * 256 + uint (word_of_int v :: byte)"
    by (simp only: be_decode_snoc)
  also have "\<dots> = (v div 256) mod 256 ^ k * 256 + v mod 256"
    by (simp only: Suc.IH [OF d]) (simp add: uint_word_of_int)
  also have "\<dots> = v mod 256 ^ Suc k"
    by (simp add: zmod_zmult2_eq)
  finally show ?case .
qed

lemma be_decode_be_encode8:
  assumes "0 \<le> v" "v < 2 ^ 64"
  shows "be_decode (be_encode8 v) = v"
proof -
  have "be_decode (be_encode8 v) = v mod 256 ^ 8"
    unfolding be_encode8_def using be_decode_digits [OF assms(1), of 8] by simp
  also have "\<dots> = v" using assms by simp
  finally show ?thesis .
qed

lemma be_encode8_1000: "be_encode8 1000 = [0, 0, 0, 0, 0, 0, 3, 232]"
  by (simp add: be_encode8_def upt8)

text \<open>The cipher reproduces the example of FIPS-197, Appendix C.1.\<close>

lemma aes128_fips197_example:
  "aes128_encrypt_block [0, 1, 2, 3, 4, 5, 6, 7, 8, 9, 10, 11, 12, 13, 14, 15]
     [0x00, 0x11, 0x22, 0x33, 0x44, 0x55, 0x66, 0x77, 0x88, 0x99, 0xaa, 0xbb, 0xcc, 0xdd, 0xee, 0xff]
   = [0x69, 0xc4, 0xe0, 0xd8, 0x6a, 0x7b, 0x04, 0x30, 0xd8, 0xcd, 0xb7, 0x80, 0x70, 0xb4, 0xc5, 0x5a]"
  by code_simp

section \<open>The claims\<close>

subsection \<open>C1: a full-set query is the set-parity query on the expanded indices\<close>

text \<open>
  C1 (amended). On the database loaded from a file of \<open>n\<close> records, with the parameters the
  constructor derives, and for any 16-byte key: \<open>PRSet(key).expand(set_size, chunk_size)\<close>
  returns an index list, and \<open>full_set_query(key)\<close> has the very outcome of
  \<open>set_parity_query\<close> on that list. For \<open>n \<ge> 1\<close> both succeed with the XOR of the
  referenced records. For \<open>n = 0\<close> the list is \<open>[0]\<close>, which the empty database does not
  hold, and both raise the \<open>ValueError\<close> of \<open>validate_index\<close>.
\<close>

theorem full_set_equals_set_parity:
  assumes "load (database_init path) t (Some f) = Inr db" "length key = 16"
  shows "\<exists>ixs. expand key (set_size (PlinkoPIRServer db)) (chunk_size (PlinkoPIRServer db)) = Inr ixs \<and>
           full_set_query (PlinkoPIRServer db) (PBytes key)
             = set_parity_query (PlinkoPIRServer db) (map PInt ixs) \<and>
           (1 \<le> length f div 8 \<longrightarrow>
              full_set_query (PlinkoPIRServer db) (PBytes key)
                = Inr (xor_all (map (\<lambda>i. spec_record f (nat i)) ixs))) \<and>
           (length f div 8 = 0 \<longrightarrow>
              full_set_query (PlinkoPIRServer db) (PBytes key)
                = Inl (ValueError ''Index 0 out of bounds [0, 0)''))"
proof -
  from load_Inr [OF assms(1)] have db: "db = loaded path f" by auto
  have n: "size_db db = int (length f div 8)" by (simp add: db loaded_def)
  then have n0: "0 \<le> size_db db" by simp
  let ?srv = "PlinkoPIRServer db"
  from expand_server [OF assms(2) n0]
  obtain ixs where e: "expand key (set_size ?srv) (chunk_size ?srv) = Inr ixs"
    and ne: "ixs \<noteq> []"
    and b: "\<forall>x \<in> set ixs. 0 \<le> x \<and> x < set_size ?srv * chunk_size ?srv" by blast
  have eq: "full_set_query ?srv (PBytes key) = set_parity_query ?srv (map PInt ixs)"
    using assms(2) e ne by (rule full_set_query_unfold)
  have pos: "1 \<le> length f div 8 \<longrightarrow>
      full_set_query ?srv (PBytes key) = Inr (xor_all (map (\<lambda>i. spec_record f (nat i)) ixs))"
  proof
    assume "1 \<le> length f div 8"
    then have "1 \<le> size_db db" unfolding n by simp
    then have "set_size ?srv * chunk_size ?srv \<le> size_db db"
      using params_product [of "size_db db"]
      by (simp add: PlinkoPIRServer_def Let_def get_size_def)
    with b have "\<forall>x \<in> set ixs. 0 \<le> x \<and> x < int (length f div 8)" unfolding n by fastforce
    then have "\<forall>x \<in> set (map PInt ixs).
        \<exists>i. py_int x = Some i \<and> 0 \<le> i \<and> i < int (length f div 8)" by auto
    moreover have "map PInt ixs \<noteq> []" using ne by simp
    ultimately have "set_parity_query (PlinkoPIRServer (loaded path f)) (map PInt ixs)
        = Inr (xor_all (map (\<lambda>x. spec_record f (nat (the (py_int x)))) (map PInt ixs)))"
      by (intro set_parity_query_loaded)
    then show "full_set_query ?srv (PBytes key)
        = Inr (xor_all (map (\<lambda>i. spec_record f (nat i)) ixs))"
      using eq by (simp add: comp_def db)
  qed
  have zero: "length f div 8 = 0 \<longrightarrow>
      full_set_query ?srv (PBytes key) = Inl (ValueError ''Index 0 out of bounds [0, 0)'')"
  proof
    assume "length f div 8 = 0"
    then have "size_db db = 0" unfolding n by simp
    with assms(2) show "full_set_query ?srv (PBytes key)
        = Inl (ValueError ''Index 0 out of bounds [0, 0)'')"
      by (rule full_set_query_empty)
  qed
  show ?thesis
    by (rule exI [of _ ixs]) (intro conjI e eq pos zero)
qed

theorem full_set_equals_set_parity_witness:
  "load (database_init ''data/database.bin'') 0 (Some file_two)
     = Inr (loaded ''data/database.bin'' file_two) \<and>
   length zero_key = 16 \<and>
   expand zero_key 2 1 = Inr [0, 1] \<and>
   full_set_query (PlinkoPIRServer (loaded ''data/database.bin'' file_two)) (PBytes zero_key)
     = Inr 1007 \<and>
   set_parity_query (PlinkoPIRServer (loaded ''data/database.bin'' file_two)) [PInt 0, PInt 1]
     = Inr 1007"
proof -
  note h = file_two_load
  have k: "length zero_key = 16" by (simp add: zero_key_def)
  have p: "set_size (PlinkoPIRServer (loaded ''data/database.bin'' file_two)) = 2"
    "chunk_size (PlinkoPIRServer (loaded ''data/database.bin'' file_two)) = 1"
    by (simp_all add: PlinkoPIRServer_def Let_def get_size_def loaded_def file_two_def)
  have "expand_loop zero_key 1 (Suc (Suc 0)) = Inr [0, 1]"
    using expand_loop_ok [OF k, of 1 "Suc (Suc 0)"] by (simp add: spec_prf_eval_mod_def)
  then have e: "expand zero_key 2 1 = Inr [0, 1]"
    by (simp add: expand_def numeral_2_eq_2)
  from full_set_equals_set_parity [OF h k] show ?thesis
    unfolding p using e h k by (auto simp add: file_two_records xor_all_def)
qed

text \<open>The claim as stated, that the full-set query succeeds on every database, fails on the
  empty one.\<close>

theorem full_set_equals_set_parity_counterexample:
  "full_set_query (PlinkoPIRServer db_empty) (PBytes zero_key)
     = Inl (ValueError ''Index 0 out of bounds [0, 0)'')"
  by (rule full_set_query_empty) (simp_all add: zero_key_def db_empty_def)

subsection \<open>C2: the PIR parameters\<close>

text \<open>
  C2 (amended). The constructor derives \<open>chunk_size = max(1, n div 1024)\<close> and
  \<open>set_size = max(1, n div chunk_size)\<close> from the database size \<open>n\<close>. For every \<open>n \<ge> 1\<close>
  they satisfy \<open>set_size * chunk_size \<le> n\<close>. For \<open>n = 0\<close> both are 1, so the product is 1
  and exceeds \<open>n\<close>: the two \<open>max(1, ...)\<close> guards keep the parameters positive on an empty
  database.
\<close>

theorem pir_parameters:
  "chunk_size (PlinkoPIRServer db) = max 1 (size_db db div 1024) \<and>
   set_size (PlinkoPIRServer db) = max 1 (size_db db div chunk_size (PlinkoPIRServer db)) \<and>
   (1 \<le> size_db db \<longrightarrow>
      set_size (PlinkoPIRServer db) * chunk_size (PlinkoPIRServer db) \<le> size_db db) \<and>
   (size_db db = 0 \<longrightarrow>
      chunk_size (PlinkoPIRServer db) = 1 \<and> set_size (PlinkoPIRServer db) = 1)"
proof -
  have c: "chunk_size (PlinkoPIRServer db) = max 1 (size_db db div 1024)"
    by (simp add: PlinkoPIRServer_def Let_def get_size_def)
  have s: "set_size (PlinkoPIRServer db) = max 1 (size_db db div chunk_size (PlinkoPIRServer db))"
    by (simp add: PlinkoPIRServer_def Let_def get_size_def)
  have p: "1 \<le> size_db db \<longrightarrow>
      set_size (PlinkoPIRServer db) * chunk_size (PlinkoPIRServer db) \<le> size_db db"
    unfolding s c using params_product [of "size_db db"] by blast
  have z: "size_db db = 0 \<longrightarrow>
      chunk_size (PlinkoPIRServer db) = 1 \<and> set_size (PlinkoPIRServer db) = 1"
    unfolding s c by simp
  from c s p z show ?thesis by blast
qed

theorem pir_parameters_witness:
  "1 \<le> size_db db_three \<and>
   set_size (PlinkoPIRServer db_three) * chunk_size (PlinkoPIRServer db_three) \<le> size_db db_three \<and>
   size_db db_empty = 0 \<and> chunk_size (PlinkoPIRServer db_empty) = 1 \<and>
   set_size (PlinkoPIRServer db_empty) = 1"
  using pir_parameters [of db_three] pir_parameters [of db_empty]
  by (simp add: db_three_def db_empty_def)

text \<open>The claim as stated, with the invariant for every \<open>n \<ge> 0\<close>, fails on the empty
  database: \<open>1 * 1 \<le> 0\<close> is false.\<close>

theorem pir_parameters_counterexample:
  "\<not> set_size (PlinkoPIRServer db_empty) * chunk_size (PlinkoPIRServer db_empty)
       \<le> db_size (PlinkoPIRServer db_empty)"
  by (simp add: PlinkoPIRServer_def Let_def get_size_def db_empty_def)

subsection \<open>C3: what \<open>expand\<close> returns\<close>

text \<open>
  C3. For every 16-byte key, every set size \<open>k \<ge> 0\<close> and every chunk size \<open>c\<close>, the list
  that \<open>expand(k, c)\<close> returns has exactly \<open>k\<close> elements, and its \<open>i\<close>-th element is
  \<open>i * c + prf_eval_mod(i, c)\<close>, where \<open>prf_eval_mod(x, m)\<close> is the specification's
  \<open>msb64(AES(key, encode(x))) mod m\<close> and \<open>0\<close> for \<open>m = 0\<close>; for \<open>c \<ge> 1\<close> the \<open>i\<close>-th
  element lies in the chunk \<open>[i * c, (i + 1) * c)\<close>. And \<open>expand\<close> does return a list for
  every \<open>0 \<le> k \<le> 2^64\<close> (for every \<open>k \<ge> 0\<close> when \<open>c = 0\<close>): every loop index is then
  one that \<open>struct\<close> packs into 64 bits. That covers every length a Python list can have.
\<close>

theorem expand_indices:
  assumes "length key = 16" "0 \<le> k"
  shows "(k \<le> 2 ^ 64 \<or> c = 0 \<longrightarrow> (\<exists>xs. expand key k c = Inr xs)) \<and>
         (\<forall>xs. expand key k c = Inr xs \<longrightarrow>
            length xs = nat k \<and>
            (\<forall>i < nat k.
               prf_eval_mod key (int i) c = Inr (spec_prf_eval_mod key (int i) c) \<and>
               xs ! i = int i * c + spec_prf_eval_mod key (int i) c \<and>
               (1 \<le> c \<longrightarrow> int i * c \<le> xs ! i \<and> xs ! i < (int i + 1) * c)))"
proof (cases "k \<le> 2 ^ 64 \<or> c = 0")
  case True
  have nk: "int (nat k) = k" using assms(2) by simp
  from True have small: "c = 0 \<or> int (nat k) \<le> 2 ^ 64" unfolding nk by blast
  let ?xs = "map (\<lambda>i. int i * c + spec_prf_eval_mod key (int i) c) [0..<nat k]"
  have e: "expand key k c = Inr ?xs"
    unfolding expand_def by (rule expand_loop_ok [OF assms(1) small])
  have len: "length ?xs = nat k" by simp
  have elems: "\<forall>i < nat k.
          prf_eval_mod key (int i) c = Inr (spec_prf_eval_mod key (int i) c) \<and>
          ?xs ! i = int i * c + spec_prf_eval_mod key (int i) c \<and>
          (1 \<le> c \<longrightarrow> int i * c \<le> ?xs ! i \<and> ?xs ! i < (int i + 1) * c)"
  proof (intro allI impI)
    fix i assume i: "i < nat k"
    have "c = 0 \<or> (0 \<le> int i \<and> int i < 2 ^ 64)"
    proof (cases "c = 0")
      case True
      then show ?thesis by blast
    next
      case False
      with small have "int (nat k) \<le> 2 ^ 64" by blast
      moreover have "int i < int (nat k)" using i by linarith
      ultimately have "int i < 2 ^ 64" by linarith
      moreover have "0 \<le> int i" by simp
      ultimately show ?thesis by blast
    qed
    then have p: "prf_eval_mod key (int i) c = Inr (spec_prf_eval_mod key (int i) c)"
      by (rule prf_eval_mod_spec [OF assms(1)])
    have n: "?xs ! i = int i * c + spec_prf_eval_mod key (int i) c" using i by simp
    have "1 \<le> c \<longrightarrow> int i * c \<le> ?xs ! i \<and> ?xs ! i < (int i + 1) * c"
      unfolding n
      using chunk_bounds [of c "spec_prf_eval_mod key (int i) c" "int i"]
        spec_prf_eval_mod_bounds [of c key "int i"] by blast
    with p n show "prf_eval_mod key (int i) c = Inr (spec_prf_eval_mod key (int i) c) \<and>
          ?xs ! i = int i * c + spec_prf_eval_mod key (int i) c \<and>
          (1 \<le> c \<longrightarrow> int i * c \<le> ?xs ! i \<and> ?xs ! i < (int i + 1) * c)" by blast
  qed
  have ex: "k \<le> 2 ^ 64 \<or> c = 0 \<longrightarrow> (\<exists>xs. expand key k c = Inr xs)"
    using e by blast
  have all: "\<forall>xs. expand key k c = Inr xs \<longrightarrow>
            length xs = nat k \<and>
            (\<forall>i < nat k.
               prf_eval_mod key (int i) c = Inr (spec_prf_eval_mod key (int i) c) \<and>
               xs ! i = int i * c + spec_prf_eval_mod key (int i) c \<and>
               (1 \<le> c \<longrightarrow> int i * c \<le> xs ! i \<and> xs ! i < (int i + 1) * c))"
  proof (intro allI impI)
    fix xs assume "expand key k c = Inr xs"
    with e have xs: "xs = ?xs" by simp
    show "length xs = nat k \<and>
            (\<forall>i < nat k.
               prf_eval_mod key (int i) c = Inr (spec_prf_eval_mod key (int i) c) \<and>
               xs ! i = int i * c + spec_prf_eval_mod key (int i) c \<and>
               (1 \<le> c \<longrightarrow> int i * c \<le> xs ! i \<and> xs ! i < (int i + 1) * c))"
      unfolding xs using len elems by (rule conjI)
  qed
  from ex all show ?thesis by (rule conjI)
next
  case False
  have nk: "int (nat k) = k" using assms(2) by simp
  from False have "c \<noteq> 0" by blast
  moreover from False have "2 ^ 64 < int (nat k)" unfolding nk by linarith
  ultimately have "expand_loop key c (nat k) = Inl (StructError ''int too large to convert'')"
    by (rule expand_loop_fail [OF assms(1)])
  then have f: "\<And>xs. expand key k c \<noteq> Inr xs" unfolding expand_def by simp
  have ex: "k \<le> 2 ^ 64 \<or> c = 0 \<longrightarrow> (\<exists>xs. expand key k c = Inr xs)"
    using False by blast
  have all: "\<forall>xs. expand key k c = Inr xs \<longrightarrow>
            length xs = nat k \<and>
            (\<forall>i < nat k.
               prf_eval_mod key (int i) c = Inr (spec_prf_eval_mod key (int i) c) \<and>
               xs ! i = int i * c + spec_prf_eval_mod key (int i) c \<and>
               (1 \<le> c \<longrightarrow> int i * c \<le> xs ! i \<and> xs ! i < (int i + 1) * c))"
    using f by blast
  from ex all show ?thesis by (rule conjI)
qed

theorem expand_indices_witness:
  "length zero_key = 16 \<and> (0::int) \<le> 3 \<and> ((3::int) \<le> 2 ^ 64 \<or> (5::int) = 0) \<and>
   (\<exists>xs. expand zero_key 3 5 = Inr xs \<and> length xs = 3 \<and> 0 \<le> xs ! 0 \<and> xs ! 0 < 5 \<and>
      5 \<le> xs ! 1 \<and> xs ! 1 < 10 \<and> 10 \<le> xs ! 2 \<and> xs ! 2 < 15)"
proof -
  have k: "length zero_key = 16" by (simp add: zero_key_def)
  have b: "(3::int) \<le> 2 ^ 64 \<or> (5::int) = 0" by simp
  have z: "(0::int) \<le> 3" by simp
  note t = expand_indices [OF k z, of 5]
  from t b obtain xs where e: "expand zero_key 3 5 = Inr xs" by blast
  with t have la: "length xs = nat 3 \<and>
      (\<forall>i < nat 3. prf_eval_mod zero_key (int i) 5 = Inr (spec_prf_eval_mod zero_key (int i) 5) \<and>
                   xs ! i = int i * 5 + spec_prf_eval_mod zero_key (int i) 5 \<and>
                   (1 \<le> (5::int) \<longrightarrow> int i * 5 \<le> xs ! i \<and> xs ! i < (int i + 1) * 5))"
    by blast
  from la have l: "length xs = nat 3" by (rule conjunct1)
  from la have a: "\<forall>i < nat 3. prf_eval_mod zero_key (int i) 5 = Inr (spec_prf_eval_mod zero_key (int i) 5) \<and>
                   xs ! i = int i * 5 + spec_prf_eval_mod zero_key (int i) 5 \<and>
                   (1 \<le> (5::int) \<longrightarrow> int i * 5 \<le> xs ! i \<and> xs ! i < (int i + 1) * 5)"
    by (rule conjunct2)
  from a have "0 \<le> xs ! 0 \<and> xs ! 0 < 5" by (auto dest: spec [of _ 0])
  moreover from a have "5 \<le> xs ! 1 \<and> xs ! 1 < 10" by (auto dest: spec [of _ 1])
  moreover from a have "10 \<le> xs ! 2 \<and> xs ! 2 < 15" by (auto dest: spec [of _ 2])
  ultimately show ?thesis using k z b e l by auto
qed

subsection \<open>C4: an expanded index out of range\<close>

text \<open>
  C4 (amended). If an index produced by the expansion inside \<open>full_set_query\<close> falls outside
  \<open>[0, n)\<close>, the query raises the \<open>ValueError\<close> of \<open>validate_index\<close>, the exception class
  that a key of the wrong length raises too, and the handler answers with status 400 and
  that exception's message as the error body (not status 500 with a generic message).
\<close>

theorem full_set_index_error_is_value_error:
  assumes "length key = 16"
    and "expand key (set_size srv) (chunk_size srv) = Inr ixs"
    and "\<exists>i \<in> set ixs. i < 0 \<or> db_size srv \<le> i"
    and "fromhex hex = Some key"
  shows "(\<exists>m. full_set_query srv (PBytes key) = Inl (ValueError m) \<and>
              full_set_query_handler srv (post_json (PDict [(''prf_key'', PStr hex)]))
                = (ErrorBody m, 400)) \<and>
         (length bs \<noteq> 16 \<longrightarrow>
            full_set_query srv (PBytes bs)
              = Inl (ValueError (''PRF key must be 16 bytes, got '' @ str_int (int (length bs)))))"
proof -
  from assms(3) obtain i where i: "i \<in> set ixs" "i < 0 \<or> db_size srv \<le> i" by blast
  have "\<not> (\<forall>x \<in> set (map PInt ixs).
      \<exists>i. py_int x = Some i \<and> 0 \<le> i \<and> i < db_size srv)"
  proof
    assume "\<forall>x \<in> set (map PInt ixs). \<exists>i. py_int x = Some i \<and> 0 \<le> i \<and> i < db_size srv"
    moreover have "PInt i \<in> set (map PInt ixs)" using i(1) by simp
    ultimately have "\<exists>j. py_int (PInt i) = Some j \<and> 0 \<le> j \<and> j < db_size srv" by blast
    then have "0 \<le> i \<and> i < db_size srv" by simp
    with i(2) show False by linarith
  qed
  then have "validate_indices (map PInt ixs) (db_size srv) \<noteq> Inr ()"
    by (simp only: validate_indices_Inr not_False_eq_True)
  then obtain e where e: "validate_indices (map PInt ixs) (db_size srv) = Inl e"
    by (cases "validate_indices (map PInt ixs) (db_size srv)") auto
  then obtain m where m: "e = ValueError m" by (auto dest: validate_indices_Inl)
  have q: "full_set_query srv (PBytes key) = Inl (ValueError m)"
    using assms(1,2) e m by (simp add: full_set_query_def validate_prf_key_def PrfKey128_def)
  then have h: "full_set_query_handler srv (post_json (PDict [(''prf_key'', PStr hex)]))
      = (ErrorBody m, 400)"
    by (simp add: full_set_query_handler_hex [OF assms(4)] handle_errors_ValueError)
  have w: "length bs \<noteq> 16 \<longrightarrow>
            full_set_query srv (PBytes bs)
              = Inl (ValueError (''PRF key must be 16 bytes, got '' @ str_int (int (length bs))))"
    by (simp add: full_set_query_def validate_prf_key_def)
  from q h w show ?thesis by blast
qed

theorem full_set_index_error_is_value_error_witness:
  "length zero_key = 16 \<and>
   expand zero_key (set_size (PlinkoPIRServer db_empty)) (chunk_size (PlinkoPIRServer db_empty))
     = Inr [0] \<and>
   (\<exists>i \<in> set [0]. i < 0 \<or> db_size (PlinkoPIRServer db_empty) \<le> i) \<and>
   fromhex hex_zero_key = Some zero_key \<and>
   (\<exists>m. full_set_query (PlinkoPIRServer db_empty) (PBytes zero_key) = Inl (ValueError m) \<and>
        full_set_query_handler (PlinkoPIRServer db_empty)
          (post_json (PDict [(''prf_key'', PStr hex_zero_key)])) = (ErrorBody m, 400))"
proof -
  have k: "length zero_key = 16" by (simp add: zero_key_def)
  have p: "set_size (PlinkoPIRServer db_empty) = 1" "chunk_size (PlinkoPIRServer db_empty) = 1"
    "db_size (PlinkoPIRServer db_empty) = 0"
    by (simp_all add: PlinkoPIRServer_def Let_def get_size_def db_empty_def)
  have e: "expand zero_key (set_size (PlinkoPIRServer db_empty))
      (chunk_size (PlinkoPIRServer db_empty)) = Inr [0]"
    unfolding p by (rule expand_one_one [OF k])
  have o: "\<exists>i \<in> set [0]. i < 0 \<or> db_size (PlinkoPIRServer db_empty) \<le> i"
    unfolding p by simp
  note f = fromhex_zero_key
  from full_set_index_error_is_value_error [OF k e o f] k e o f show ?thesis by blast
qed

text \<open>The claim as stated, status 500, fails for the zero key on the empty database: the
  answer is status 400.\<close>

theorem full_set_index_error_counterexample:
  "full_set_query_handler (PlinkoPIRServer db_empty)
     (post_json (PDict [(''prf_key'', PStr hex_zero_key)]))
     = (ErrorBody ''Index 0 out of bounds [0, 0)'', 400)"
proof -
  have "full_set_query (PlinkoPIRServer db_empty) (PBytes zero_key)
      = Inl (ValueError ''Index 0 out of bounds [0, 0)'')"
    by (rule full_set_query_empty) (simp_all add: zero_key_def db_empty_def)
  then show ?thesis
    by (simp add: full_set_query_handler_hex [OF fromhex_zero_key] handle_errors_ValueError)
qed

subsection \<open>C5: the set-parity query\<close>

text \<open>
  C5. On the database loaded from a file of \<open>n\<close> records, for every non-empty list of
  integers (in Python's sense, \<open>isinstance(x, int)\<close>) all within \<open>[0, n)\<close>,
  \<open>set_parity_query\<close> returns the XOR of the records at the listed positions, duplicates
  taken as given, so that a doubled index cancels. It raises \<open>ValueError\<close>, the exception the
  handlers turn into status 400, if and only if the list is empty, or some element is not an
  integer, or some element lies outside \<open>[0, n)\<close>; every outcome is either a result or that
  error, never both.
\<close>

theorem set_parity_query_correct:
  assumes "load (database_init path) t (Some f) = Inr db"
  shows "(L \<noteq> [] \<and> (\<forall>x \<in> set L. \<exists>i. py_int x = Some i \<and> 0 \<le> i \<and> i < int (length f div 8)) \<longrightarrow>
            set_parity_query (PlinkoPIRServer db) L
              = Inr (xor_all (map (\<lambda>x. spec_record f (nat (the (py_int x)))) L))) \<and>
         (idxs \<noteq> [] \<and> (\<forall>i \<in> set idxs. 0 \<le> i \<and> i < int (length f div 8)) \<longrightarrow>
            set_parity_query (PlinkoPIRServer db) (map PInt idxs)
              = Inr (xor_all (map (\<lambda>i. spec_record f (nat i)) idxs))) \<and>
         (0 \<le> j \<and> j < int (length f div 8) \<longrightarrow>
            set_parity_query (PlinkoPIRServer db) [PInt j, PInt j] = Inr 0) \<and>
         ((\<exists>m. set_parity_query (PlinkoPIRServer db) L = Inl (ValueError m)) \<longleftrightarrow>
            L = [] \<or> (\<exists>x \<in> set L. py_int x = None) \<or>
            (\<exists>x \<in> set L. \<exists>i. py_int x = Some i \<and> (i < 0 \<or> int (length f div 8) \<le> i))) \<and>
         ((\<exists>v. set_parity_query (PlinkoPIRServer db) L = Inr v) \<or>
          (\<exists>m. set_parity_query (PlinkoPIRServer db) L = Inl (ValueError m))) \<and>
         handle_errors ParityBody (Inl (ValueError msg)) = (ErrorBody msg, 400)"
proof -
  from load_Inr [OF assms] have db: "db = loaded path f" by auto
  have sz: "size_db db = int (length (data db))" unfolding db by (rule loaded_size)
  have n: "size_db db = int (length f div 8)" by (simp add: db loaded_def)
  have general: "set_parity_query (PlinkoPIRServer db) M
              = Inr (xor_all (map (\<lambda>x. spec_record f (nat (the (py_int x)))) M))"
    if ne: "M \<noteq> []"
      and ok: "\<forall>x \<in> set M. \<exists>i. py_int x = Some i \<and> 0 \<le> i \<and> i < int (length f div 8)" for M
  proof -
    from ok have ok': "\<forall>x \<in> set M. \<exists>i. py_int x = Some i \<and> 0 \<le> i \<and> i < size_db db"
      unfolding n .
    have "map (\<lambda>x. data db ! nat (the (py_int x))) M
        = map (\<lambda>x. spec_record f (nat (the (py_int x)))) M"
    proof (rule map_cong [OF refl])
      fix x assume "x \<in> set M"
      with ok obtain i where i: "py_int x = Some i" "0 \<le> i" "i < int (length f div 8)" by blast
      then have "nat i < length f div 8" by linarith
      then have "data (loaded path f) ! nat i = spec_record f (nat i)" by (rule loaded_nth)
      with i show "data db ! nat (the (py_int x)) = spec_record f (nat (the (py_int x)))"
        by (simp add: db)
    qed
    with set_parity_query_ok [OF sz ne ok'] show ?thesis by simp
  qed
  have p1: "L \<noteq> [] \<and> (\<forall>x \<in> set L. \<exists>i. py_int x = Some i \<and> 0 \<le> i \<and> i < int (length f div 8)) \<longrightarrow>
            set_parity_query (PlinkoPIRServer db) L
              = Inr (xor_all (map (\<lambda>x. spec_record f (nat (the (py_int x)))) L))"
    using general [of L] by blast
  have p2: "idxs \<noteq> [] \<and> (\<forall>i \<in> set idxs. 0 \<le> i \<and> i < int (length f div 8)) \<longrightarrow>
            set_parity_query (PlinkoPIRServer db) (map PInt idxs)
              = Inr (xor_all (map (\<lambda>i. spec_record f (nat i)) idxs))"
  proof
    assume a: "idxs \<noteq> [] \<and> (\<forall>i \<in> set idxs. 0 \<le> i \<and> i < int (length f div 8))"
    then have "map PInt idxs \<noteq> []" by simp
    moreover from a have "\<forall>x \<in> set (map PInt idxs).
        \<exists>i. py_int x = Some i \<and> 0 \<le> i \<and> i < int (length f div 8)" by auto
    ultimately have "set_parity_query (PlinkoPIRServer db) (map PInt idxs)
        = Inr (xor_all (map (\<lambda>x. spec_record f (nat (the (py_int x)))) (map PInt idxs)))"
      by (rule general)
    then show "set_parity_query (PlinkoPIRServer db) (map PInt idxs)
              = Inr (xor_all (map (\<lambda>i. spec_record f (nat i)) idxs))"
      by (simp add: comp_def)
  qed
  have p3: "0 \<le> j \<and> j < int (length f div 8) \<longrightarrow>
            set_parity_query (PlinkoPIRServer db) [PInt j, PInt j] = Inr 0"
  proof
    assume a: "0 \<le> j \<and> j < int (length f div 8)"
    have "set_parity_query (PlinkoPIRServer db) [PInt j, PInt j]
        = Inr (xor_all (map (\<lambda>x. spec_record f (nat (the (py_int x)))) [PInt j, PInt j]))"
      using a by (intro general) auto
    then show "set_parity_query (PlinkoPIRServer db) [PInt j, PInt j] = Inr 0"
      by (simp add: xor_all_def)
  qed
  have bad: "\<exists>m. set_parity_query (PlinkoPIRServer db) L = Inl (ValueError m)"
    if "L = [] \<or> \<not> (\<forall>x \<in> set L. \<exists>i. py_int x = Some i \<and> 0 \<le> i \<and> i < int (length f div 8))"
    using that set_parity_query_bad [of L db] unfolding n by blast
  have p4: "(\<exists>m. set_parity_query (PlinkoPIRServer db) L = Inl (ValueError m)) \<longleftrightarrow>
            L = [] \<or> (\<exists>x \<in> set L. py_int x = None) \<or>
            (\<exists>x \<in> set L. \<exists>i. py_int x = Some i \<and> (i < 0 \<or> int (length f div 8) \<le> i))"
  proof
    assume e: "\<exists>m. set_parity_query (PlinkoPIRServer db) L = Inl (ValueError m)"
    have "L = [] \<or> \<not> (\<forall>x \<in> set L. \<exists>i. py_int x = Some i \<and> 0 \<le> i \<and> i < int (length f div 8))"
    proof (rule ccontr)
      assume "\<not> (L = [] \<or> \<not> (\<forall>x \<in> set L. \<exists>i. py_int x = Some i \<and> 0 \<le> i \<and> i < int (length f div 8)))"
      then have "L \<noteq> [] \<and> (\<forall>x \<in> set L. \<exists>i. py_int x = Some i \<and> 0 \<le> i \<and> i < int (length f div 8))"
        by blast
      with p1 e show False by auto
    qed
    then show "L = [] \<or> (\<exists>x \<in> set L. py_int x = None) \<or>
            (\<exists>x \<in> set L. \<exists>i. py_int x = Some i \<and> (i < 0 \<or> int (length f div 8) \<le> i))"
      unfolding py_int_invalid_iff .
  next
    assume "L = [] \<or> (\<exists>x \<in> set L. py_int x = None) \<or>
            (\<exists>x \<in> set L. \<exists>i. py_int x = Some i \<and> (i < 0 \<or> int (length f div 8) \<le> i))"
    then have "L = [] \<or> \<not> (\<forall>x \<in> set L. \<exists>i. py_int x = Some i \<and> 0 \<le> i \<and> i < int (length f div 8))"
      unfolding py_int_invalid_iff .
    then show "\<exists>m. set_parity_query (PlinkoPIRServer db) L = Inl (ValueError m)" by (rule bad)
  qed
  have p5: "(\<exists>v. set_parity_query (PlinkoPIRServer db) L = Inr v) \<or>
          (\<exists>m. set_parity_query (PlinkoPIRServer db) L = Inl (ValueError m))"
    using p1 bad by blast
  have p6: "handle_errors ParityBody (Inl (ValueError msg)) = (ErrorBody msg, 400)"
    by (rule handle_errors_ValueError)
  from p1 p2 p3 p4 p5 p6 show ?thesis by blast
qed

theorem set_parity_query_correct_witness:
  "load (database_init ''data/database.bin'') 0 (Some file_two)
     = Inr (loaded ''data/database.bin'' file_two) \<and>
   set_parity_query (PlinkoPIRServer (loaded ''data/database.bin'' file_two)) [PInt 0, PInt 1]
     = Inr 1007 \<and>
   set_parity_query (PlinkoPIRServer (loaded ''data/database.bin'' file_two)) [PInt 1, PInt 1]
     = Inr 0 \<and>
   (\<exists>m. set_parity_query (PlinkoPIRServer (loaded ''data/database.bin'' file_two)) []
          = Inl (ValueError m)) \<and>
   (\<exists>m. set_parity_query (PlinkoPIRServer (loaded ''data/database.bin'' file_two))
            [PInt 0, PStr ''1''] = Inl (ValueError m)) \<and>
   (\<exists>m. set_parity_query (PlinkoPIRServer (loaded ''data/database.bin'' file_two)) [PInt 0, PInt 2]
          = Inl (ValueError m))"
proof -
  note h = file_two_load
  have a: "set_parity_query (PlinkoPIRServer (loaded ''data/database.bin'' file_two))
             (map PInt [0, 1]) = Inr 1007"
    using set_parity_query_correct [OF h, of "[]" "[0, 1]" 0]
    by (simp add: file_two_records xor_all_def)
  have b: "set_parity_query (PlinkoPIRServer (loaded ''data/database.bin'' file_two))
             [PInt 1, PInt 1] = Inr 0"
    using set_parity_query_correct [OF h, of "[]" "[]" 1] by (simp add: file_two_records)
  have c: "\<exists>m. set_parity_query (PlinkoPIRServer (loaded ''data/database.bin'' file_two)) []
          = Inl (ValueError m)"
    using set_parity_query_correct [OF h, of "[]" "[]" 0] by simp
  have d: "\<exists>m. set_parity_query (PlinkoPIRServer (loaded ''data/database.bin'' file_two))
            [PInt 0, PStr ''1''] = Inl (ValueError m)"
    using set_parity_query_correct [OF h, of "[PInt 0, PStr ''1'']" "[]" 0] by simp
  have e: "\<exists>m. set_parity_query (PlinkoPIRServer (loaded ''data/database.bin'' file_two))
            [PInt 0, PInt 2] = Inl (ValueError m)"
    using set_parity_query_correct [OF h, of "[PInt 0, PInt 2]" "[]" 0]
    by (simp add: file_two_records)
  from h a b c d e show ?thesis by simp
qed

subsection \<open>C6: the plaintext query\<close>

text \<open>
  C6. On the database loaded from the file \<open>f\<close> of \<open>n = length f div 8\<close> records, for every
  \<open>i\<close> in \<open>[0, n)\<close> \<open>plaintext_query(i)\<close> returns the unsigned 64-bit value that bytes
  \<open>8i .. 8i+7\<close> of the file encode big-endian, and for every integer outside \<open>[0, n)\<close> it
  raises \<open>ValueError\<close> instead of returning a value.
\<close>

theorem plaintext_query_record:
  assumes "load (database_init path) t (Some f) = Inr db"
  shows "db_size (PlinkoPIRServer db) = int (length f div 8) \<and>
         (0 \<le> i \<and> i < int (length f div 8) \<longrightarrow>
            plaintext_query (PlinkoPIRServer db) (PInt i) = Inr (spec_record f (nat i)) \<and>
            0 \<le> spec_record f (nat i) \<and> spec_record f (nat i) < 2 ^ 64) \<and>
         (i < 0 \<or> int (length f div 8) \<le> i \<longrightarrow>
            (\<exists>m. plaintext_query (PlinkoPIRServer db) (PInt i) = Inl (ValueError m)))"
proof -
  from load_Inr [OF assms] have db: "db = loaded path f" by auto
  have n: "db_size (PlinkoPIRServer db) = int (length f div 8)"
    by (simp add: db db_size_server loaded_def)
  have ok: "0 \<le> i \<and> i < int (length f div 8) \<longrightarrow>
            plaintext_query (PlinkoPIRServer db) (PInt i) = Inr (spec_record f (nat i)) \<and>
            0 \<le> spec_record f (nat i) \<and> spec_record f (nat i) < 2 ^ 64"
  proof
    assume i: "0 \<le> i \<and> i < int (length f div 8)"
    then have ni: "nat i < length f div 8" by linarith
    from i have v: "validate_index (PInt i) (db_size (PlinkoPIRServer db)) = Inr ()"
      unfolding n by (simp add: validate_index_PInt)
    have "get_entry db i = Inr (data db ! nat i)"
      using i by (intro get_entry_ok) (simp_all add: db loaded_def)
    then have "get_entry db i = Inr (spec_record f (nat i))"
      unfolding db by (simp only: loaded_nth [OF ni])
    with v have "plaintext_query (PlinkoPIRServer db) (PInt i) = Inr (spec_record f (nat i))"
      by (simp add: plaintext_query_def database_server)
    with spec_record_bounds [OF ni] show
      "plaintext_query (PlinkoPIRServer db) (PInt i) = Inr (spec_record f (nat i)) \<and>
            0 \<le> spec_record f (nat i) \<and> spec_record f (nat i) < 2 ^ 64" by blast
  qed
  have bad: "i < 0 \<or> int (length f div 8) \<le> i \<longrightarrow>
            (\<exists>m. plaintext_query (PlinkoPIRServer db) (PInt i) = Inl (ValueError m))"
    unfolding plaintext_query_def n by (auto simp add: validate_index_PInt)
  from n ok bad show ?thesis by blast
qed

theorem plaintext_query_record_witness:
  "load (database_init ''data/database.bin'') 0 (Some file_two)
     = Inr (loaded ''data/database.bin'' file_two) \<and>
   plaintext_query (PlinkoPIRServer (loaded ''data/database.bin'' file_two)) (PInt 1) = Inr 1000 \<and>
   (\<exists>m. plaintext_query (PlinkoPIRServer (loaded ''data/database.bin'' file_two)) (PInt 2)
          = Inl (ValueError m))"
proof -
  have h: "load (database_init ''data/database.bin'') 0 (Some file_two)
     = Inr (loaded ''data/database.bin'' file_two)"
    by (rule load_ok) (simp add: file_two_def)
  have l: "length file_two div 8 = 2" by (simp add: file_two_def)
  have r: "spec_record file_two (nat 1) = 1000"
    by (simp add: spec_record_def upt8 file_two_def)
  from plaintext_query_record [OF h, of 1] plaintext_query_record [OF h, of 2] h
  show ?thesis unfolding l r by simp
qed

subsection \<open>C8: what the error body of a rejected request says\<close>

text \<open>
  C8. The specification asks that the error body of a rejected request not echo the caller's
  index, so that two rejected plaintext requests get the same body; the engine's own
  documentation says that a queried index is not logged and that error handling leaks no
  information. The handlers do otherwise: the body (and the log line written with it) is
  the message of the \<open>ValueError\<close> that \<open>validate_index\<close> raises,
  and that message carries the index. On a database of three records the requests for the
  indices 3 and 4 are both rejected with status 400, each with a body of its own that names
  the index; a negative index and a one-element set-parity list are answered the same way.
\<close>

theorem rejected_index_body_echo:
  "plaintext_query_handler (PlinkoPIRServer db_three) (post_json (PDict [(''index'', PInt 3)]))
     = (ErrorBody ''Index 3 out of bounds [0, 3)'', 400) \<and>
   plaintext_query_handler (PlinkoPIRServer db_three) (post_json (PDict [(''index'', PInt 4)]))
     = (ErrorBody ''Index 4 out of bounds [0, 3)'', 400) \<and>
   plaintext_query_handler (PlinkoPIRServer db_three) (post_json (PDict [(''index'', PInt (- 1))]))
     = (ErrorBody ''Index cannot be negative: -1'', 400) \<and>
   set_parity_query_handler (PlinkoPIRServer db_three)
       (post_json (PDict [(''indices'', PList [PInt 3])]))
     = (ErrorBody ''Index 3 out of bounds [0, 3)'', 400)"
proof -
  have n: "db_size (PlinkoPIRServer db_three) = 3"
    by (simp add: PlinkoPIRServer_def Let_def get_size_def db_three_def)
  have a: "plaintext_query_handler (PlinkoPIRServer db_three)
      (post_json (PDict [(''index'', PInt 3)]))
      = (ErrorBody (index_error_message 3 (db_size (PlinkoPIRServer db_three))), 400)"
    by (rule plaintext_query_handler_rejected) (simp add: n)
  have b: "plaintext_query_handler (PlinkoPIRServer db_three)
      (post_json (PDict [(''index'', PInt 4)]))
      = (ErrorBody (index_error_message 4 (db_size (PlinkoPIRServer db_three))), 400)"
    by (rule plaintext_query_handler_rejected) (simp add: n)
  have c: "plaintext_query_handler (PlinkoPIRServer db_three)
      (post_json (PDict [(''index'', PInt (- 1))]))
      = (ErrorBody (index_error_message (- 1) (db_size (PlinkoPIRServer db_three))), 400)"
    by (rule plaintext_query_handler_rejected) simp
  have d: "set_parity_query_handler (PlinkoPIRServer db_three)
      (post_json (PDict [(''indices'', PList [PInt 3])]))
      = (ErrorBody (index_error_message 3 (db_size (PlinkoPIRServer db_three))), 400)"
    by (rule set_parity_query_handler_rejected) (simp add: n)
  from a b c d show ?thesis
    unfolding n by (simp add: index_error_message_def str_int_small)
qed

subsection \<open>C9: the expanded indices increase strictly\<close>

text \<open>
  C9. For every 16-byte key, every set size \<open>k\<close> and every chunk size \<open>c \<ge> 1\<close>, the list
  that \<open>expand(k, c)\<close> returns is strictly increasing, hence free of duplicates, and has
  \<open>k\<close> elements (none for a negative \<open>k\<close>); and \<open>expand\<close> does return a list for every
  \<open>0 \<le> k \<le> 2^64\<close>, the range in which \<open>struct\<close> can pack the loop index.
\<close>

theorem expand_strictly_increasing:
  assumes "length key = 16" "1 \<le> c"
  shows "(0 \<le> k \<and> k \<le> 2 ^ 64 \<longrightarrow> (\<exists>xs. expand key k c = Inr xs)) \<and>
         (\<forall>xs. expand key k c = Inr xs \<longrightarrow>
            sorted_wrt (<) xs \<and> distinct xs \<and> length xs = nat k)"
proof (cases "int (nat k) \<le> 2 ^ 64")
  case True
  let ?xs = "map (\<lambda>i. int i * c + spec_prf_eval_mod key (int i) c) [0..<nat k]"
  from True have "c = 0 \<or> int (nat k) \<le> 2 ^ 64" by blast
  then have e: "expand key k c = Inr ?xs"
    unfolding expand_def by (rule expand_loop_ok [OF assms(1)])
  have s: "sorted_wrt (<) ?xs" using assms(2) by (rule sorted_wrt_chunks)
  then have d: "distinct ?xs" by (simp add: strict_sorted_iff)
  have l: "length ?xs = nat k" by simp
  from e s d l show ?thesis by auto
next
  case False
  then have big: "2 ^ 64 < int (nat k)" by linarith
  from assms(2) have "c \<noteq> 0" by auto
  then have f: "expand key k c = Inl (StructError ''int too large to convert'')"
    unfolding expand_def using big by (rule expand_loop_fail [OF assms(1)])
  have "\<not> (0 \<le> k \<and> k \<le> 2 ^ 64)" using False by auto
  with f show ?thesis by simp
qed

theorem expand_strictly_increasing_witness:
  "length zero_key = 16 \<and> (1::int) \<le> 5 \<and> (0::int) \<le> 3 \<and> (3::int) \<le> 2 ^ 64 \<and>
   (\<exists>xs. expand zero_key 3 5 = Inr xs \<and> sorted_wrt (<) xs \<and> distinct xs \<and> length xs = 3)"
proof -
  have k: "length zero_key = 16" by (simp add: zero_key_def)
  have c: "(1::int) \<le> 5" by simp
  from expand_strictly_increasing [OF k c, of 3] show ?thesis using k by auto
qed

subsection \<open>C10: the empty database and the health check\<close>

text \<open>
  C10. Loading a zero-length file succeeds and gives a database of size 0, the very state
  the constructor of \<open>PlinkoDatabase\<close> starts from. On it \<open>health_check\<close> reports status
  \<open>healthy\<close> with \<open>database_loaded\<close> false, chunk size 1 and set size 1; on every database
  the field \<open>database_loaded\<close> is the truth value of \<open>n > 0\<close>.
\<close>

theorem empty_database_health:
  "load (database_init path) t (Some []) = Inr (database_init path) \<and>
   size_db (database_init path) = 0 \<and>
   health_check (PlinkoPIRServer (database_init path)) =
     \<lparr>status = ''healthy'', database_loaded = False, database_size = 0,
      health_chunk_size = 1, health_set_size = 1\<rparr> \<and>
   database_loaded (health_check (PlinkoPIRServer db)) = (0 < size_db db)"
  by (simp add: load_def database_init_def health_check_def PlinkoPIRServer_def Let_def
      get_size_def)

end
